theory Spec2Isabelle
  imports Main
begin

section \<open>JavaScript values and the runtime operations the node relies on\<close>

text \<open>
  Values that flow through the node (results of \<^verbatim>\<open>JSON.parse\<close>, node parameters, output
  bodies). An object is an association list in own-key order with distinct keys. Numbers are
  the integral ones.
\<close>

datatype jv =
    JUndefined
  | JNull
  | JBool bool
  | JNum int
  | JStr string
  | JArr "jv list"
  | JObj "(string \<times> jv) list"

text \<open>Errors that can be thrown while the node runs; \<open>message\<close> is \<^verbatim>\<open>(error as Error).message\<close>.\<close>

datatype error =
    TypeError string
  | HostError string
  | ReadJsonFailed string
  | NoFunctionSelected
  | ManifestNotFound string
  | FunctionNotFound string
  | FunctionNotFoundInManifest string
  | ScriptNotFound string
  | FsError string
  | BinaryPropertyNotFound string
  | ScriptFailed string
  | StartFailed string
  | TimedOut

fun message :: "error \<Rightarrow> string" where
  "message (TypeError m) = m"
| "message (HostError m) = m"
| "message (ReadJsonFailed p) = ''Failed to read or parse JSON file: '' @ p"
| "message NoFunctionSelected = ''No function selected.''"
| "message (ManifestNotFound p) = ''Manifest file not found: '' @ p"
| "message (FunctionNotFound f) = ''Function '' @ [CHR 0x27] @ f @ [CHR 0x27] @ '' not found.''"
| "message (FunctionNotFoundInManifest f) =
     ''Function '' @ [CHR 0x27] @ f @ [CHR 0x27] @ '' not found in manifest.''"
| "message (ScriptNotFound f) = ''Script file not found: '' @ f"
| "message (FsError m) = m"
| "message (BinaryPropertyNotFound n) =
     ''Binary property '' @ [CHR 0x27] @ n @ [CHR 0x27] @ '' not found in input data.''"
| "message (ScriptFailed m) = ''Script failed: '' @ m"
| "message (StartFailed m) = ''Failed to start script: '' @ m"
| "message TimedOut = ''Script execution timed out''"

text \<open>JavaScript truthiness, as used by \<^verbatim>\<open>!x\<close>, \<^verbatim>\<open>x || y\<close> and \<^verbatim>\<open>if (x)\<close>.\<close>

fun truthy :: "jv \<Rightarrow> bool" where
  "truthy JUndefined = False"
| "truthy JNull = False"
| "truthy (JBool b) = b"
| "truthy (JNum n) = (n \<noteq> 0)"
| "truthy (JStr s) = (s \<noteq> [])"
| "truthy (JArr xs) = True"
| "truthy (JObj kvs) = True"

definition js_or :: "jv \<Rightarrow> jv \<Rightarrow> jv" where
  "js_or a b = (if truthy a then a else b)"

text \<open>Decimal rendering of numbers, for \<^verbatim>\<open>String(value)\<close> and template literals.\<close>

definition digit_char :: "nat \<Rightarrow> char" where
  "digit_char d = ''0123456789'' ! d"

function show_nat :: "nat \<Rightarrow> string" where
  "show_nat n = (if n < 10 then [digit_char n] else show_nat (n div 10) @ [digit_char (n mod 10)])"
  by pat_completeness auto
termination
  by (relation "measure (\<lambda>n. n)") auto

declare show_nat.simps [simp del]

definition show_int :: "int \<Rightarrow> string" where
  "show_int i = (if i < 0 then CHR ''-'' # show_nat (nat (- i)) else show_nat (nat i))"

fun join_with :: "string \<Rightarrow> string list \<Rightarrow> string" where
  "join_with sep [] = []"
| "join_with sep [x] = x"
| "join_with sep (x # y # ys) = x @ sep @ join_with sep (y # ys)"

text \<open>\<^verbatim>\<open>String(v)\<close>: an array joins its elements with commas, null and undefined elements
  rendering as the empty string; a plain object is \<^verbatim>\<open>[object Object]\<close>.\<close>

fun js_String :: "jv \<Rightarrow> string" where
  "js_String JUndefined = ''undefined''"
| "js_String JNull = ''null''"
| "js_String (JBool b) = (if b then ''true'' else ''false'')"
| "js_String (JNum n) = show_int n"
| "js_String (JStr s) = s"
| "js_String (JArr xs) =
     join_with '','' (map (\<lambda>x. if x = JNull \<or> x = JUndefined then [] else js_String x) xs)"
| "js_String (JObj kvs) = ''[object Object]''"

text \<open>Property read \<^verbatim>\<open>v.k\<close>: a TypeError on null and undefined, undefined where the
  property is missing. Only the data properties of parsed JSON are looked up this way.\<close>

fun member :: "jv \<Rightarrow> string \<Rightarrow> error + jv" where
  "member JUndefined k = Inl (TypeError (''Cannot read properties of undefined (reading '' @ k @ '')''))"
| "member JNull k = Inl (TypeError (''Cannot read properties of null (reading '' @ k @ '')''))"
| "member (JObj kvs) k = Inr (case map_of kvs k of Some v \<Rightarrow> v | None \<Rightarrow> JUndefined)"
| "member v k = Inr JUndefined"

text \<open>Optional chaining \<^verbatim>\<open>v?.k\<close>.\<close>

fun opt_member :: "jv \<Rightarrow> string \<Rightarrow> jv" where
  "opt_member (JObj kvs) k = (case map_of kvs k of Some v \<Rightarrow> v | None \<Rightarrow> JUndefined)"
| "opt_member v k = JUndefined"

text \<open>Assignment \<^verbatim>\<open>o[k] = v\<close> on an object: an existing key keeps its position.\<close>

fun obj_set :: "(string \<times> jv) list \<Rightarrow> string \<Rightarrow> jv \<Rightarrow> (string \<times> jv) list" where
  "obj_set [] k v = [(k, v)]"
| "obj_set ((k', v') # kvs) k v = (if k' = k then (k, v) # kvs else (k', v') # obj_set kvs k v)"

fun index_entries :: "nat \<Rightarrow> jv list \<Rightarrow> (string \<times> jv) list" where
  "index_entries i [] = []"
| "index_entries i (x # xs) = (show_nat i, x) # index_entries (Suc i) xs"

text \<open>Object spread \<^verbatim>\<open>{...v}\<close>: the own enumerable properties of \<open>v\<close>; the indices of an
  array or a string; nothing for the other primitives.\<close>

fun spread :: "jv \<Rightarrow> (string \<times> jv) list" where
  "spread (JObj kvs) = kvs"
| "spread (JArr xs) = index_entries 0 xs"
| "spread (JStr s) = index_entries 0 (map (\<lambda>c. JStr [c]) s)"
| "spread v = []"

text \<open>\<^verbatim>\<open>for (const x of v)\<close>: arrays and strings are iterable, anything else is a TypeError.\<close>

fun iterate :: "jv \<Rightarrow> error + jv list" where
  "iterate (JArr xs) = Inr xs"
| "iterate (JStr s) = Inr (map (\<lambda>c. JStr [c]) s)"
| "iterate v = Inl (TypeError ''value is not iterable'')"

fun is_array :: "jv \<Rightarrow> bool" where
  "is_array (JArr xs) = True"
| "is_array v = False"

text \<open>\<^verbatim>\<open>path.join(root, p)\<close> wants a string.\<close>

fun join_path :: "(string \<Rightarrow> string \<Rightarrow> string) \<Rightarrow> string \<Rightarrow> jv \<Rightarrow> error + string" where
  "join_path pj root (JStr p) = Inr (pj root p)"
| "join_path pj root v = Inl (TypeError ''The path argument must be of type string'')"


section \<open>Environment: file system, runtime library and host\<close>

text \<open>
  What the process does when it is spawned: it closes with an exit code (\<open>None\<close> when a
  signal ended it), its standard output and its standard error; or the launch fails with
  an error event; or it never closes. The flag of \<open>Closed\<close> says whether the close event is
  delivered before a timer of 30000 ms armed right after the spawn would fire.
\<close>

datatype proc_run =
    Closed bool "int option" string string
  | LaunchError string
  | NeverCloses

text \<open>
  What \<^verbatim>\<open>fs.writeFile(path, data)\<close> does: it writes the data; or it rejects before the file
  is opened (no such directory, no permission); or it rejects after the file was opened
  with flag \<^verbatim>\<open>w\<close>, which created or truncated it (no space left, an I/O error), leaving the
  given part of the data in the file.
\<close>

datatype write_outcome =
    Written
  | Rejected_before_open
  | Rejected_after_open string

record attachment =
  att_bytes :: string
  att_fileName :: jv

text \<open>
  The runtime library (\<^verbatim>\<open>path\<close>, \<^verbatim>\<open>JSON\<close>, \<^verbatim>\<open>Buffer\<close>, \<^verbatim>\<open>Date\<close>, \<^verbatim>\<open>os\<close>,
  \<^verbatim>\<open>child_process\<close>) and the n8n host (\<^verbatim>\<open>getNodeParameter\<close>, \<^verbatim>\<open>continueOnFail\<close>,
  \<^verbatim>\<open>helpers\<close>) are not code of the node: they are parameters of the model.
  \<open>date_now k\<close> is the value of the \<open>k\<close>-th call of \<^verbatim>\<open>Date.now()\<close>.
\<close>

record env =
  repoRoot :: string
  tmpdir :: string
  pjoin :: "string \<Rightarrow> string \<Rightarrow> string"
  json_parse :: "string \<Rightarrow> jv option"
  json_stringify :: "jv \<Rightarrow> string"
  buffer_from_base64 :: "jv \<Rightarrow> error + string"
  date_now :: "nat \<Rightarrow> nat"
  fs_write :: "string \<Rightarrow> string \<Rightarrow> write_outcome"
  unlink_fails :: "string \<Rightarrow> bool"
  spawn :: "string \<Rightarrow> string list \<Rightarrow> (string \<rightharpoonup> string) \<Rightarrow> proc_run"
  getNodeParameter :: "string \<Rightarrow> nat \<Rightarrow> jv option \<Rightarrow> error + jv"
  continueOnFail :: bool
  getBinaryDataBuffer :: "nat \<Rightarrow> string \<Rightarrow> error + string"
  prepareBinaryData :: "string \<Rightarrow> jv \<Rightarrow> error + attachment"

type_synonym files = "string \<rightharpoonup> string"

definition manifestPath :: "env \<Rightarrow> string" where
  "manifestPath e = pjoin e (repoRoot e) ''ffmpeg_node_manifest.json''"

text \<open>\<^verbatim>\<open>readJson\<close>: any failure to read or to parse is rethrown as one error naming the file.\<close>

definition readJson :: "env \<Rightarrow> files \<Rightarrow> string \<Rightarrow> error + jv" where
  "readJson e fs p =
     (case fs p of
        None \<Rightarrow> Inl (ReadJsonFailed p)
      | Some raw \<Rightarrow>
          (case json_parse e raw of None \<Rightarrow> Inl (ReadJsonFailed p) | Some v \<Rightarrow> Inr v))"

text \<open>\<^verbatim>\<open>fs.access\<close>.\<close>

definition access :: "files \<Rightarrow> string \<Rightarrow> error + unit" where
  "access fs p = (if fs p = None then Inl (FsError (''ENOENT: no such file or directory, access '' @ p)) else Inr ())"

section \<open>The dynamic form builder (\<^verbatim>\<open>loadAndAppendDynamicProperties\<close>)\<close>

datatype console =
    WarnManifestMissing string
  | WarnNoFunctions
  | WarnInvalidFunction jv
  | WarnInvalidProperty jv jv
  | ErrorReadUI jv error
  | ErrorLoad error

text \<open>The registry is \<^verbatim>\<open>this.description.properties\<close>; the console output is kept beside it.\<close>

type_synonym registry = "jv list \<times> console list"

text \<open>The object literal that the builder pushes for a property \<open>prop\<close> of the function whose
  \<^verbatim>\<open>value\<close> is \<open>fv\<close>.\<close>

definition dynamicProperty :: "jv \<Rightarrow> jv \<Rightarrow> jv" where
  "dynamicProperty prop fv =
     (let dopts = opt_member prop ''displayOptions'';
          show = JObj (obj_set (spread (js_or (opt_member dopts ''show'') (JObj [])))
                   ''selectedFunction'' (JArr [fv]));
          dopts' = JObj (obj_set (spread (js_or dopts (JObj []))) ''show'' show)
      in JObj (obj_set (spread prop) ''displayOptions'' dopts'))"

text \<open>The inner loop over the properties of one UI file. An exception leaves what was
  pushed before it in the registry.\<close>

fun append_props :: "jv \<Rightarrow> jv list \<Rightarrow> registry \<Rightarrow> error option \<times> registry" where
  "append_props func [] st = (None, st)"
| "append_props func (prop # ps) (reg, lg) =
     (case member prop ''name'' of
        Inl err \<Rightarrow> (Some err, (reg, lg))
      | Inr n \<Rightarrow>
          if \<not> truthy n
          then append_props func ps (reg, lg @ [WarnInvalidProperty (opt_member func ''uiFile'') prop])
          else if \<not> truthy (opt_member prop ''type'')
          then append_props func ps (reg, lg @ [WarnInvalidProperty (opt_member func ''uiFile'') prop])
          else append_props func ps
                 (reg @ [dynamicProperty prop (opt_member func ''value'')], lg))"

text \<open>The body of the inner \<^verbatim>\<open>try\<close> for one function entry.\<close>

definition load_ui :: "env \<Rightarrow> files \<Rightarrow> jv \<Rightarrow> string \<Rightarrow> registry \<Rightarrow> error option \<times> registry" where
  "load_ui e fs func uiStructurePath st =
     (case access fs uiStructurePath of
        Inl err \<Rightarrow> (Some err, st)
      | Inr _ \<Rightarrow>
          (case readJson e fs uiStructurePath of
             Inl err \<Rightarrow> (Some err, st)
           | Inr uiConfig \<Rightarrow>
               (case iterate (js_or (opt_member uiConfig ''properties'') (JArr [])) of
                  Inl err \<Rightarrow> (Some err, st)
                | Inr props \<Rightarrow> append_props func props st)))"

text \<open>The loop over the function entries; an exception outside the inner \<^verbatim>\<open>try\<close> ends it.\<close>

fun append_functions :: "env \<Rightarrow> files \<Rightarrow> jv list \<Rightarrow> registry \<Rightarrow> error option \<times> registry" where
  "append_functions e fs [] st = (None, st)"
| "append_functions e fs (func # fns) (reg, lg) =
     (case member func ''uiFile'' of
        Inl err \<Rightarrow> (Some err, (reg, lg))
      | Inr uiFile \<Rightarrow>
          if \<not> truthy uiFile \<or> \<not> truthy (opt_member func ''value'')
          then append_functions e fs fns (reg, lg @ [WarnInvalidFunction func])
          else (case join_path (pjoin e) (repoRoot e) uiFile of
                  Inl err \<Rightarrow> (Some err, (reg, lg))
                | Inr uiStructurePath \<Rightarrow>
                    (case load_ui e fs func uiStructurePath (reg, lg) of
                       (Some err, (reg', lg')) \<Rightarrow>
                         append_functions e fs fns (reg', lg' @ [ErrorReadUI (opt_member func ''name'') err])
                     | (None, st') \<Rightarrow> append_functions e fs fns st')))"

definition build_body :: "env \<Rightarrow> files \<Rightarrow> registry \<Rightarrow> error option \<times> registry" where
  "build_body e fs st =
     (case access fs (manifestPath e) of
        Inl _ \<Rightarrow> (None, (fst st, snd st @ [WarnManifestMissing (manifestPath e)]))
      | Inr _ \<Rightarrow>
          (case readJson e fs (manifestPath e) of
             Inl err \<Rightarrow> (Some err, st)
           | Inr manifest \<Rightarrow>
               (case member manifest ''functions'' of
                  Inl err \<Rightarrow> (Some err, st)
                | Inr fns \<Rightarrow>
                    (case fns of
                       JArr fs' \<Rightarrow> append_functions e fs fs' st
                     | _ \<Rightarrow> (None, (fst st, snd st @ [WarnNoFunctions]))))))"

text \<open>
  \<^verbatim>\<open>loadAndAppendDynamicProperties\<close>: the outer \<^verbatim>\<open>catch\<close> logs whatever the body throws.
  The result is what the returned promise settles with: \<open>Inl\<close> would be a rejection.
\<close>

definition loadAndAppendDynamicProperties :: "env \<Rightarrow> files \<Rightarrow> registry \<Rightarrow> error + registry" where
  "loadAndAppendDynamicProperties e fs st =
     (case build_body e fs st of
        (Some err, (reg, lg)) \<Rightarrow> Inr (reg, lg @ [ErrorLoad err])
      | (None, st') \<Rightarrow> Inr st')"

section \<open>Items, the world and the steps shared by both versions of \<^verbatim>\<open>execute\<close>\<close>

text \<open>\<^verbatim>\<open>INodeExecutionData\<close>: input items and output records.\<close>

record exec_data =
  json :: jv
  binary :: "(string \<times> attachment) list option"
  pairedItem :: "nat option"

datatype event =
    Wrote string
  | Unlinked string
  | CleanupFailed string
  | Spawned string "string list"
  | Killed
  | Warned error

record world =
  files :: files
  ticks :: nat
  trace :: "event list"

text \<open>Strict equality \<^verbatim>\<open>===\<close>: by value on primitives; two distinct arrays or objects are
  never equal.\<close>

fun strict_eq :: "jv \<Rightarrow> jv \<Rightarrow> bool" where
  "strict_eq (JArr xs) b = False"
| "strict_eq (JObj kvs) b = False"
| "strict_eq a b = (a = b)"

text \<open>\<^verbatim>\<open>functions.find((f) => f.value === selectedFunctionValue)\<close>.\<close>

fun find_value :: "jv list \<Rightarrow> jv \<Rightarrow> error + jv option" where
  "find_value [] sel = Inr None"
| "find_value (f # fns) sel =
     (case member f ''value'' of
        Inl err \<Rightarrow> Inl err
      | Inr v \<Rightarrow> if strict_eq v sel then Inr (Some f) else find_value fns sel)"

fun find_function :: "jv \<Rightarrow> jv \<Rightarrow> error + jv option" where
  "find_function (JArr fns) sel = find_value fns sel"
| "find_function JUndefined sel = Inl (TypeError ''Cannot read properties of undefined (reading find)'')"
| "find_function JNull sel = Inl (TypeError ''Cannot read properties of null (reading find)'')"
| "find_function v sel = Inl (TypeError ''manifest.functions.find is not a function'')"

text \<open>\<^verbatim>\<open>String.prototype.trim\<close> on the ASCII white space.\<close>

definition is_space :: "char \<Rightarrow> bool" where
  "is_space c = (c \<in> {CHR '' '', CHR 0x09, CHR 0x0A, CHR 0x0B, CHR 0x0C, CHR 0x0D})"

definition trim :: "string \<Rightarrow> string" where
  "trim s = rev (dropWhile is_space (rev (dropWhile is_space s)))"

definition show_code :: "int option \<Rightarrow> string" where
  "show_code c = (case c of None \<Rightarrow> ''null'' | Some n \<Rightarrow> show_int n)"

text \<open>The result decoder: \<^verbatim>\<open>JSON.parse\<close> in a \<^verbatim>\<open>try\<close>, the text fallback in the \<^verbatim>\<open>catch\<close>.\<close>

definition decode :: "env \<Rightarrow> string \<Rightarrow> jv" where
  "decode e scriptResult =
     (case json_parse e scriptResult of
        Some v \<Rightarrow> v
      | None \<Rightarrow> JObj [(''output'', JStr scriptResult), (''parseError'', JBool True)])"

definition error_record :: "error \<Rightarrow> nat \<Rightarrow> exec_data" where
  "error_record err i =
     \<lparr>json = JObj [(''error'', JStr (message err))], binary = None, pairedItem = Some i\<rparr>"

text \<open>
  The loop over the items, shared by both versions: \<open>step w i\<close> is the \<^verbatim>\<open>try\<close> block of
  item \<open>i\<close> together with its \<^verbatim>\<open>finally\<close> block, and \<open>None\<close> means that it never returns.
  The \<^verbatim>\<open>catch\<close> block asks the host for its continue-on-fail policy.
\<close>

fun item_loop ::
  "(world \<Rightarrow> nat \<Rightarrow> ((error + exec_data) \<times> world) option) \<Rightarrow> bool \<Rightarrow> nat list \<Rightarrow>
     exec_data list \<Rightarrow> world \<Rightarrow> ((error + exec_data list) \<times> world) option" where
  "item_loop step cof [] returnData w = Some (Inr returnData, w)"
| "item_loop step cof (i # is) returnData w =
     (case step w i of
        None \<Rightarrow> None
      | Some (Inr r, w') \<Rightarrow> item_loop step cof is (returnData @ [r]) w'
      | Some (Inl err, w') \<Rightarrow>
          if cof then item_loop step cof is (returnData @ [error_record err i]) w'
          else Some (Inl err, w'))"

section \<open>\<^verbatim>\<open>execute\<close> with command-line flags (\<^verbatim>\<open>src/nodes/FFmpegNode.node.ts\<close>)\<close>

text \<open>The loop that fills \<^verbatim>\<open>args\<close>. It runs inside a \<^verbatim>\<open>try\<close>: an exception is returned
  with the arguments pushed so far.\<close>

fun push_args :: "env \<Rightarrow> nat \<Rightarrow> jv list \<Rightarrow> string list \<Rightarrow> error option \<times> string list" where
  "push_args e i [] args = (None, args)"
| "push_args e i (prop # ps) args =
     (case member prop ''name'' of
        Inl err \<Rightarrow> (Some err, args)
      | Inr n \<Rightarrow>
          if \<not> truthy n then push_args e i ps args
          else (case getNodeParameter e (js_String n) i
                       (Some (js_or (opt_member prop ''default'') (JStr []))) of
                  Inl err \<Rightarrow> (Some err, args)
                | Inr v \<Rightarrow>
                    if v \<noteq> JUndefined \<and> v \<noteq> JNull \<and> v \<noteq> JStr []
                    then push_args e i ps (args @ [''--'' @ js_String n, js_String v])
                    else push_args e i ps args))"

text \<open>The \<^verbatim>\<open>try\<close> around the UI file: access, read, and the loop when \<^verbatim>\<open>properties\<close> is an
  array.\<close>

definition load_args :: "env \<Rightarrow> files \<Rightarrow> nat \<Rightarrow> string \<Rightarrow> error option \<times> string list" where
  "load_args e fs i uiStructurePath =
     (case access fs uiStructurePath of
        Inl err \<Rightarrow> (Some err, [])
      | Inr _ \<Rightarrow>
          (case readJson e fs uiStructurePath of
             Inl err \<Rightarrow> (Some err, [])
           | Inr uiConfig \<Rightarrow>
               (case member uiConfig ''properties'' of
                  Inl err \<Rightarrow> (Some err, [])
                | Inr props \<Rightarrow>
                    (case props of
                       JArr ps \<Rightarrow> push_args e i ps []
                     | _ \<Rightarrow> (None, [])))))"

text \<open>The promise around the spawned process, with its 30000 ms timer.\<close>

definition invoke_cli :: "env \<Rightarrow> string \<Rightarrow> string list \<Rightarrow> world \<Rightarrow> (error + string) \<times> world" where
  "invoke_cli e scriptPath args w =
     (let w1 = w\<lparr>trace := trace w @ [Spawned ''python3'' (scriptPath # args)]\<rparr> in
      case spawn e ''python3'' (scriptPath # args) (files w) of
        Closed before code out err \<Rightarrow>
          if before
          then (if code \<noteq> Some 0
                then (Inl (ScriptFailed (if err \<noteq> [] then err
                                         else ''Script exited with code '' @ show_code code)), w1)
                else (Inr (trim out), w1))
          else (Inl TimedOut, w1\<lparr>trace := trace w1 @ [Killed]\<rparr>)
      | LaunchError m \<Rightarrow> (Inl (StartFailed m), w1)
      | NeverCloses \<Rightarrow> (Inl TimedOut, w1\<lparr>trace := trace w1 @ [Killed]\<rparr>))"

text \<open>The \<^verbatim>\<open>try\<close> block of one item.\<close>

definition item_cli :: "env \<Rightarrow> world \<Rightarrow> nat \<Rightarrow> (error + exec_data) \<times> world" where
  "item_cli e w i =
     (case getNodeParameter e ''selectedFunction'' i None of
        Inl err \<Rightarrow> (Inl err, w)
      | Inr sel \<Rightarrow>
          if \<not> truthy sel then (Inl NoFunctionSelected, w)
          else (case access (files w) (manifestPath e) of
            Inl _ \<Rightarrow> (Inl (ManifestNotFound (manifestPath e)), w)
          | Inr _ \<Rightarrow>
          (case readJson e (files w) (manifestPath e) of
            Inl err \<Rightarrow> (Inl err, w)
          | Inr manifest \<Rightarrow>
          (case member manifest ''functions'' of
            Inl err \<Rightarrow> (Inl err, w)
          | Inr fns \<Rightarrow>
          (case find_function fns sel of
            Inl err \<Rightarrow> (Inl err, w)
          | Inr None \<Rightarrow> (Inl (FunctionNotFoundInManifest (js_String sel)), w)
          | Inr (Some selectedFunction) \<Rightarrow>
          (case join_path (pjoin e) (repoRoot e) (opt_member selectedFunction ''scriptFile'') of
            Inl err \<Rightarrow> (Inl err, w)
          | Inr scriptPath \<Rightarrow>
          (case access (files w) scriptPath of
            Inl _ \<Rightarrow> (Inl (ScriptNotFound (js_String (opt_member selectedFunction ''scriptFile''))), w)
          | Inr _ \<Rightarrow>
          (case join_path (pjoin e) (repoRoot e) (opt_member selectedFunction ''uiFile'') of
            Inl err \<Rightarrow> (Inl err, w)
          | Inr uiStructurePath \<Rightarrow>
              (let (warn, args) = load_args e (files w) i uiStructurePath;
                   w1 = (case warn of None \<Rightarrow> w
                         | Some err \<Rightarrow> w\<lparr>trace := trace w @ [Warned err]\<rparr>)
               in case invoke_cli e scriptPath args w1 of
                    (Inl err, w2) \<Rightarrow> (Inl err, w2)
                  | (Inr scriptResult, w2) \<Rightarrow>
                      (Inr \<lparr>json = decode e scriptResult, binary = None, pairedItem = Some i\<rparr>,
                       w2))))))))))"

definition execute_cli :: "env \<Rightarrow> world \<Rightarrow> exec_data list \<Rightarrow> ((error + exec_data list) \<times> world) option" where
  "execute_cli e w items =
     item_loop (\<lambda>w i. Some (item_cli e w i)) (continueOnFail e) [0..<length items] [] w"

section \<open>\<^verbatim>\<open>execute\<close> with a parameter file and binary bridging (\<^verbatim>\<open>src/unnamed/part_000\<close>)\<close>

definition ends_with :: "string \<Rightarrow> string \<Rightarrow> bool" where
  "ends_with s suf = (length suf \<le> length s \<and> drop (length s - length suf) s = suf)"

text \<open>\<^verbatim>\<open>s.replace(pat, rep)\<close> with a string pattern: the first occurrence only.\<close>

fun replace_first :: "string \<Rightarrow> string \<Rightarrow> string \<Rightarrow> string" where
  "replace_first pat rep [] = (if pat = [] then rep else [])"
| "replace_first pat rep (c # cs) =
     (if take (length pat) (c # cs) = pat then rep @ drop (length pat) (c # cs)
      else c # replace_first pat rep cs)"

definition obj_get :: "(string \<times> jv) list \<Rightarrow> string \<Rightarrow> jv" where
  "obj_get kvs k = (case map_of kvs k of Some v \<Rightarrow> v | None \<Rightarrow> JUndefined)"

definition Date_now :: "env \<Rightarrow> world \<Rightarrow> nat \<times> world" where
  "Date_now e w = (date_now e (ticks w), w\<lparr>ticks := Suc (ticks w)\<rparr>)"

text \<open>\<^verbatim>\<open>fs.writeFile\<close>. The event \<open>Wrote p\<close> records that a file now exists at \<open>p\<close> because of this
  call, also when the call rejected after it had opened the file.\<close>

definition writeFile :: "env \<Rightarrow> string \<Rightarrow> string \<Rightarrow> world \<Rightarrow> (error + unit) \<times> world" where
  "writeFile e p content w =
     (case fs_write e p content of
        Written \<Rightarrow>
          (Inr (), w\<lparr>files := (files w)(p \<mapsto> content), trace := trace w @ [Wrote p]\<rparr>)
      | Rejected_before_open \<Rightarrow> (Inl (FsError (''cannot open '' @ p)), w)
      | Rejected_after_open part \<Rightarrow>
          (Inl (FsError (''cannot write '' @ p)),
           w\<lparr>files := (files w)(p \<mapsto> part), trace := trace w @ [Wrote p]\<rparr>))"

text \<open>\<^verbatim>\<open>fs.unlink\<close> inside its own \<^verbatim>\<open>try\<close>: a failure is logged and nothing else.\<close>

definition unlink_logged :: "env \<Rightarrow> string \<Rightarrow> world \<Rightarrow> world" where
  "unlink_logged e p w =
     (if files w p = None \<or> unlink_fails e p
      then w\<lparr>trace := trace w @ [CleanupFailed p]\<rparr>
      else w\<lparr>files := (files w)(p := None), trace := trace w @ [Unlinked p]\<rparr>)"

fun cleanup :: "env \<Rightarrow> string list \<Rightarrow> world \<Rightarrow> world" where
  "cleanup e [] w = w"
| "cleanup e (p # ps) w = cleanup e ps (unlink_logged e p w)"

text \<open>The parameter resolver: a property without a name is skipped, and so is one whose
  lookup throws.\<close>

fun collect_parameters :: "env \<Rightarrow> nat \<Rightarrow> jv list \<Rightarrow> (string \<times> jv) list \<Rightarrow> error + (string \<times> jv) list" where
  "collect_parameters e i [] parameters = Inr parameters"
| "collect_parameters e i (prop # ps) parameters =
     (case member prop ''name'' of
        Inl err \<Rightarrow> Inl err
      | Inr n \<Rightarrow>
          if \<not> truthy n then collect_parameters e i ps parameters
          else (case getNodeParameter e (js_String n) i None of
                  Inl _ \<Rightarrow> collect_parameters e i ps parameters
                | Inr v \<Rightarrow> collect_parameters e i ps (obj_set parameters (js_String n) v)))"

definition binaryPropNameKey :: "string \<Rightarrow> string" where
  "binaryPropNameKey toggleKey = replace_first ''IsBinary'' [] toggleKey @ ''BinaryPropertyName''"

definition temp_bin_name :: "nat \<Rightarrow> string \<Rightarrow> string" where
  "temp_bin_name t fileName = ''n8n-ffmpeg-bin-'' @ show_nat t @ ''-'' @ fileName"

text \<open>
  The binary input bridge: the loop over the keys that end in \<^verbatim>\<open>IsBinary\<close>, over the
  copy \<^verbatim>\<open>processedParameters\<close>, the list \<^verbatim>\<open>tempFiles\<close> and the world. An exception
  leaves the files written so far in \<^verbatim>\<open>tempFiles\<close>.
\<close>

fun bridge_in ::
  "env \<Rightarrow> exec_data \<Rightarrow> nat \<Rightarrow> string list \<Rightarrow> (string \<times> jv) list \<Rightarrow> string list \<Rightarrow> world \<Rightarrow>
     (error + (string \<times> jv) list) \<times> string list \<times> world" where
  "bridge_in e inputData i [] processed tempFiles w = (Inr processed, tempFiles, w)"
| "bridge_in e inputData i (toggleKey # ks) processed tempFiles w =
     (if obj_get processed toggleKey = JBool True \<and> truthy (obj_get processed (binaryPropNameKey toggleKey))
      then
        (let binaryPropertyName = js_String (obj_get processed (binaryPropNameKey toggleKey)) in
         case (case binary inputData of None \<Rightarrow> None | Some bs \<Rightarrow> map_of bs binaryPropertyName) of
           None \<Rightarrow> (Inl (BinaryPropertyNotFound binaryPropertyName), tempFiles, w)
         | Some binaryInfo \<Rightarrow>
             (case getBinaryDataBuffer e i binaryPropertyName of
                Inl err \<Rightarrow> (Inl err, tempFiles, w)
              | Inr binaryBuffer \<Rightarrow>
                  (let fileName = (if att_fileName binaryInfo = JUndefined \<or> att_fileName binaryInfo = JNull
                                   then binaryPropertyName @ ''.bin''
                                   else js_String (att_fileName binaryInfo));
                       (t, w1) = Date_now e w;
                       tempPath = pjoin e (tmpdir e) (temp_bin_name t fileName)
                   in case writeFile e tempPath binaryBuffer w1 of
                        (Inl err, w2) \<Rightarrow> (Inl err, tempFiles, w2)
                      | (Inr _, w2) \<Rightarrow>
                          bridge_in e inputData i ks
                            (obj_set processed (binaryPropNameKey toggleKey) (JStr tempPath))
                            (tempFiles @ [tempPath]) w2)))
      else bridge_in e inputData i ks processed tempFiles w)"

definition binaryToggleKeys :: "(string \<times> jv) list \<Rightarrow> string list" where
  "binaryToggleKeys processed = filter (\<lambda>k. ends_with k ''IsBinary'') (map fst processed)"

text \<open>The promise around the spawned process: there is no timer here, so a process that
  never closes leaves the promise pending (\<open>None\<close>).\<close>

definition invoke_json :: "env \<Rightarrow> string \<Rightarrow> string \<Rightarrow> world \<Rightarrow> (error + string) option \<times> world" where
  "invoke_json e scriptPath paramsPath w =
     (let w1 = w\<lparr>trace := trace w @ [Spawned ''python'' [scriptPath, paramsPath]]\<rparr> in
      case spawn e ''python'' [scriptPath, paramsPath] (files w) of
        Closed before code out err \<Rightarrow>
          if code \<noteq> Some 0
          then (Some (Inl (ScriptFailed (if err \<noteq> [] then err
                                         else ''Exited with code '' @ show_code code))), w1)
          else (Some (Inr (trim out)), w1)
      | LaunchError m \<Rightarrow> (Some (Inl (StartFailed m)), w1)
      | NeverCloses \<Rightarrow> (None, w1))"

text \<open>The binary output bridge.\<close>

definition bridge_out :: "env \<Rightarrow> jv \<Rightarrow> nat \<Rightarrow> error + exec_data" where
  "bridge_out e jsonResult i =
     (case member jsonResult ''binary_data'' of
        Inl err \<Rightarrow> Inl err
      | Inr bd \<Rightarrow>
          if truthy bd \<and> truthy (opt_member jsonResult ''file_name'')
          then (case buffer_from_base64 e bd of
                  Inl err \<Rightarrow> Inl err
                | Inr binaryBuffer \<Rightarrow>
                    (case prepareBinaryData e binaryBuffer (opt_member jsonResult ''file_name'') of
                       Inl err \<Rightarrow> Inl err
                     | Inr binaryData \<Rightarrow>
                         Inr \<lparr>json = JObj [], binary = Some [(''data'', binaryData)],
                              pairedItem = Some i\<rparr>))
          else Inr \<lparr>json = jsonResult, binary = None, pairedItem = Some i\<rparr>)"

text \<open>The first part of the \<^verbatim>\<open>try\<close> block: the selected function, its script and the
  resolved parameters. It only reads.\<close>

definition resolve_json :: "env \<Rightarrow> files \<Rightarrow> nat \<Rightarrow> error + (string \<times> (string \<times> jv) list)" where
  "resolve_json e fs i =
     (case getNodeParameter e ''selectedFunction'' i (Some (JStr [])) of
        Inl err \<Rightarrow> Inl err
      | Inr sel \<Rightarrow>
          if \<not> truthy sel then Inl NoFunctionSelected
          else
          (case readJson e fs (manifestPath e) of
            Inl err \<Rightarrow> Inl err
          | Inr manifest \<Rightarrow>
          (case member manifest ''functions'' of
            Inl err \<Rightarrow> Inl err
          | Inr fns \<Rightarrow>
          (case find_function fns sel of
            Inl err \<Rightarrow> Inl err
          | Inr None \<Rightarrow> Inl (FunctionNotFound (js_String sel))
          | Inr (Some selectedFunction) \<Rightarrow>
          (case join_path (pjoin e) (repoRoot e) (opt_member selectedFunction ''scriptFile'') of
            Inl err \<Rightarrow> Inl err
          | Inr scriptPath \<Rightarrow>
          (case join_path (pjoin e) (repoRoot e) (opt_member selectedFunction ''uiFile'') of
            Inl err \<Rightarrow> Inl err
          | Inr uiStructurePath \<Rightarrow>
          (case access fs scriptPath of
            Inl err \<Rightarrow> Inl err
          | Inr _ \<Rightarrow>
          (case readJson e fs uiStructurePath of
            Inl err \<Rightarrow> Inl err
          | Inr uiConfig \<Rightarrow>
          (case member uiConfig ''properties'' of
            Inl err \<Rightarrow> Inl err
          | Inr props \<Rightarrow>
              (case props of
                 JArr ps \<Rightarrow>
                   (case collect_parameters e i ps [] of
                      Inl err \<Rightarrow> Inl err
                    | Inr parameters \<Rightarrow> Inr (scriptPath, parameters))
               | _ \<Rightarrow> Inr (scriptPath, [])))))))))))"

definition params_name :: "nat \<Rightarrow> nat \<Rightarrow> string" where
  "params_name t i = ''n8n-ffmpeg-params-'' @ show_nat t @ ''-'' @ show_nat i @ ''.json''"

text \<open>
  The \<^verbatim>\<open>try\<close> block of one item. It returns the outcome (\<open>None\<close>: the awaited promise
  never settles), the list \<^verbatim>\<open>tempFiles\<close> as the block leaves it, and the world.
\<close>

definition try_json ::
  "env \<Rightarrow> exec_data list \<Rightarrow> world \<Rightarrow> nat \<Rightarrow> (error + exec_data) option \<times> string list \<times> world" where
  "try_json e items w i =
     (case resolve_json e (files w) i of
        Inl err \<Rightarrow> (Some (Inl err), [], w)
      | Inr (scriptPath, parameters) \<Rightarrow>
          (case bridge_in e (items ! i) i (binaryToggleKeys parameters) parameters [] w of
             (Inl err, tempFiles, w1) \<Rightarrow> (Some (Inl err), tempFiles, w1)
           | (Inr processed, tempFiles, w1) \<Rightarrow>
               (let (t, w2) = Date_now e w1;
                    paramsPath = pjoin e (tmpdir e) (params_name t i)
                in case writeFile e paramsPath (json_stringify e (JObj processed)) w2 of
                     (Inl err, w3) \<Rightarrow> (Some (Inl err), tempFiles, w3)
                   | (Inr _, w3) \<Rightarrow>
                       (case invoke_json e scriptPath paramsPath w3 of
                          (None, w4) \<Rightarrow> (None, tempFiles @ [paramsPath], w4)
                        | (Some (Inl err), w4) \<Rightarrow> (Some (Inl err), tempFiles @ [paramsPath], w4)
                        | (Some (Inr scriptResult), w4) \<Rightarrow>
                            (Some (bridge_out e (decode e scriptResult) i),
                             tempFiles @ [paramsPath], w4)))))"

text \<open>The \<^verbatim>\<open>try\<close> block followed by the \<^verbatim>\<open>finally\<close> block, which runs once the \<^verbatim>\<open>try\<close>
  block is left, however it is left.\<close>

definition item_json :: "env \<Rightarrow> exec_data list \<Rightarrow> world \<Rightarrow> nat \<Rightarrow> ((error + exec_data) \<times> world) option" where
  "item_json e items w i =
     (case try_json e items w i of
        (None, tempFiles, w') \<Rightarrow> None
      | (Some r, tempFiles, w') \<Rightarrow> Some (r, cleanup e tempFiles w'))"

definition execute_json :: "env \<Rightarrow> world \<Rightarrow> exec_data list \<Rightarrow> ((error + exec_data list) \<times> world) option" where
  "execute_json e w items =
     item_loop (item_json e items) (continueOnFail e) [0..<length items] [] w"

section \<open>Reference definitions and a sample installation\<close>




text \<open>
  A sample installation: a manifest with one function \<^verbatim>\<open>cut\<close>, whose UI file declares a
  binary toggle with its property name, a number and a text field. File contents are short
  tokens and \<open>sample_parse\<close> maps each token to the value that it stands for.
\<close>

definition sample_manifest :: jv where
  "sample_manifest = JObj [(''functions'', JArr [JObj [(''name'', JStr ''Cut''), (''value'', JStr ''cut''),
     (''uiFile'', JStr ''ui.json''), (''scriptFile'', JStr ''run.py'')]])]"

definition sample_props :: "jv list" where
  "sample_props =
     [JObj [(''name'', JStr ''inIsBinary''), (''type'', JStr ''boolean'')],
      JObj [(''name'', JStr ''inBinaryPropertyName''), (''type'', JStr ''string'')],
      JObj [(''name'', JStr ''speed''), (''type'', JStr ''number''),
            (''displayOptions'', JObj [(''show'', JObj [(''mode'', JArr [JStr ''fast''])])])],
      JObj [(''name'', JStr ''note''), (''type'', JStr ''string'')]]"

definition sample_parse :: "string \<Rightarrow> jv option" where
  "sample_parse s =
     (if s = ''M'' then Some sample_manifest
      else if s = ''U'' then Some (JObj [(''properties'', JArr sample_props)])
      else if s = ''ok'' then Some (JObj [(''status'', JStr ''ok'')])
      else if s = ''bin'' then Some (JObj [(''binary_data'', JStr ''YWJj''), (''file_name'', JStr ''x.bin'')])
      else None)"

definition sample_files :: files where
  "sample_files = [''/repo/ffmpeg_node_manifest.json'' \<mapsto> ''M'', ''/repo/ui.json'' \<mapsto> ''U'',
     ''/repo/run.py'' \<mapsto> ''S'']"

definition sample_param :: "string \<Rightarrow> nat \<Rightarrow> jv option \<Rightarrow> error + jv" where
  "sample_param n i fallback =
     (if n = ''selectedFunction'' then Inr (JStr ''cut'')
      else if n = ''inIsBinary'' then Inr (JBool True)
      else if n = ''inBinaryPropertyName'' then Inr (JStr ''data'')
      else if n = ''speed'' then Inr (JNum 0)
      else (case fallback of Some v \<Rightarrow> Inr v | None \<Rightarrow> Inl (HostError ''Could not get parameter'')))"

definition sample_env :: env where
  "sample_env =
     \<lparr>repoRoot = ''/repo'', tmpdir = ''/tmp'',
      pjoin = (\<lambda>a b. a @ ''/'' @ b),
      json_parse = sample_parse,
      json_stringify = js_String,
      buffer_from_base64 = (\<lambda>v. if v = JStr ''YWJj'' then Inr ''abc'' else Inr []),
      date_now = (\<lambda>k. 7 + k),
      fs_write = (\<lambda>p content. Written),
      unlink_fails = (\<lambda>p. False),
      spawn = (\<lambda>cmd args fs. Closed True (Some 0) '' ok '' []),
      getNodeParameter = sample_param,
      continueOnFail = True,
      getBinaryDataBuffer = (\<lambda>i n. if n = ''data'' then Inr ''abc'' else Inl (HostError ''no buffer'')),
      prepareBinaryData = (\<lambda>b f. Inr \<lparr>att_bytes = b, att_fileName = f\<rparr>)\<rparr>"

definition sample_world :: world where
  "sample_world = \<lparr>files = sample_files, ticks = 0, trace = []\<rparr>"

definition sample_item :: exec_data where
  "sample_item = \<lparr>json = JObj [], binary = Some [(''data'', \<lparr>att_bytes = [], att_fileName = JStr ''v.mp4''\<rparr>)],
     pairedItem = None\<rparr>"

text \<open>A descriptor that the builder registers: it has a truthy name and a truthy type. The
  properties that the UI file of a function entry declares; the entries that the builder can
  load; and the shape of a descriptor whose display options, when it has any, are objects.\<close>

definition valid_descriptor :: "jv \<Rightarrow> bool" where
  "valid_descriptor p = (truthy (opt_member p ''name'') \<and> truthy (opt_member p ''type''))"

definition is_defined :: "jv \<Rightarrow> bool" where
  "is_defined v = (v \<noteq> JNull \<and> v \<noteq> JUndefined)"

definition is_indexed :: "jv \<Rightarrow> bool" where
  "is_indexed v = (case v of JStr s \<Rightarrow> True | JArr xs \<Rightarrow> True | _ \<Rightarrow> False)"

text \<open>The properties that the UI file of an entry lists: none when the file cannot be read or
  parsed, or when what it lists cannot be iterated.\<close>

definition schema_props :: "env \<Rightarrow> files \<Rightarrow> jv \<Rightarrow> jv list" where
  "schema_props e fs func =
     (case opt_member func ''uiFile'' of
        JStr ui \<Rightarrow>
          (case readJson e fs (pjoin e (repoRoot e) ui) of
             Inr cfg \<Rightarrow>
               (case iterate (js_or (opt_member cfg ''properties'') (JArr [])) of
                  Inr ps \<Rightarrow> ps
                | Inl _ \<Rightarrow> [])
           | Inl _ \<Rightarrow> [])
      | _ \<Rightarrow> [])"

text \<open>
  What the builder is expected to register for one entry: nothing for an entry without a
  \<^verbatim>\<open>uiFile\<close> or a \<^verbatim>\<open>value\<close>; otherwise the descriptors with a name and a type, in schema
  order, up to the first null property, each augmented for this entry.
\<close>

definition entry_properties :: "env \<Rightarrow> files \<Rightarrow> jv \<Rightarrow> jv list" where
  "entry_properties e fs func =
     (if truthy (opt_member func ''uiFile'') \<and> truthy (opt_member func ''value'')
      then map (\<lambda>p. dynamicProperty p (opt_member func ''value''))
             (filter valid_descriptor (takeWhile is_defined (schema_props e fs func)))
      else [])"

text \<open>An entry on which the loop over the manifest does not throw: it is not null, and its
  \<^verbatim>\<open>uiFile\<close>, when the entry is not skipped, is a string.\<close>

definition safe_entry :: "jv \<Rightarrow> bool" where
  "safe_entry func =
     (is_defined func \<and>
      (\<not> (truthy (opt_member func ''uiFile'') \<and> truthy (opt_member func ''value''))
       \<or> (case opt_member func ''uiFile'' of JStr ui \<Rightarrow> True | _ \<Rightarrow> False)))"

text \<open>A descriptor whose \<^verbatim>\<open>displayOptions\<close> and \<^verbatim>\<open>displayOptions.show\<close> are not strings or
  arrays (they are objects, or absent, or some other primitive).\<close>

definition plain_options :: "jv \<Rightarrow> bool" where
  "plain_options prop =
     (\<not> is_indexed (opt_member prop ''displayOptions'')
      \<and> \<not> is_indexed (opt_member (opt_member prop ''displayOptions'') ''show''))"

text \<open>Three damaged installations: a manifest whose first entry is null, a manifest whose
  first entry has a number as its \<^verbatim>\<open>uiFile\<close>, and a UI file whose first property is null.\<close>

definition damaged_parse :: "string \<Rightarrow> jv option" where
  "damaged_parse s =
     (if s = ''N'' then Some (JObj [(''functions'', JArr [JNull, JObj [(''name'', JStr ''Cut''),
        (''value'', JStr ''cut''), (''uiFile'', JStr ''ui.json''), (''scriptFile'', JStr ''run.py'')]])])
      else if s = ''Q'' then Some (JObj [(''functions'', JArr [JObj [(''value'', JStr ''old''),
        (''uiFile'', JNum 5)], JObj [(''name'', JStr ''Cut''),
        (''value'', JStr ''cut''), (''uiFile'', JStr ''ui.json''), (''scriptFile'', JStr ''run.py'')]])])
      else if s = ''P'' then Some (JObj [(''properties'', JArr [JNull,
        JObj [(''name'', JStr ''note''), (''type'', JStr ''string'')]])])
      else sample_parse s)"

definition damaged_env :: env where
  "damaged_env = sample_env\<lparr>json_parse := damaged_parse\<rparr>"

definition null_entry_files :: files where
  "null_entry_files = sample_files(''/repo/ffmpeg_node_manifest.json'' \<mapsto> ''N'')"

definition numeric_path_files :: files where
  "numeric_path_files = sample_files(''/repo/ffmpeg_node_manifest.json'' \<mapsto> ''Q'')"

definition null_property_files :: files where
  "null_property_files = sample_files(''/repo/ui.json'' \<mapsto> ''P'')"



text \<open>
  What the loop over the items is expected to produce: the record of an item is the error
  record of what its block threw, or the record that the block pushed; \<open>run_items\<close> is
  the world that the loop has reached after the items of a list, and \<open>result_at\<close> is the
  outcome of item \<open>k\<close> in the world left by the items before it.
\<close>


definition outcome_record :: "error + exec_data \<Rightarrow> nat \<Rightarrow> exec_data" where
  "outcome_record r i = (case r of Inl err \<Rightarrow> error_record err i | Inr d \<Rightarrow> d)"

definition world_after ::
  "(world \<Rightarrow> nat \<Rightarrow> ((error + exec_data) \<times> world) option) \<Rightarrow> world \<Rightarrow> nat \<Rightarrow> world" where
  "world_after step w i = (case step w i of Some (r, w') \<Rightarrow> w' | None \<Rightarrow> w)"

fun run_items ::
  "(world \<Rightarrow> nat \<Rightarrow> ((error + exec_data) \<times> world) option) \<Rightarrow> nat list \<Rightarrow> world \<Rightarrow> world" where
  "run_items step [] w = w"
| "run_items step (i # ixs) w = run_items step ixs (world_after step w i)"

definition result_at ::
  "(world \<Rightarrow> nat \<Rightarrow> ((error + exec_data) \<times> world) option) \<Rightarrow> world \<Rightarrow> nat \<Rightarrow> (error + exec_data) option" where
  "result_at step w k = map_option fst (step (run_items step [0..<k] w) k)"


definition step_cli :: "env \<Rightarrow> world \<Rightarrow> nat \<Rightarrow> ((error + exec_data) \<times> world) option" where
  "step_cli e = (\<lambda>w i. Some (item_cli e w i))"

text \<open>A batch of three items on a node whose second item has no function selected, with
  and without the continue-on-fail policy.\<close>

definition mixed_env :: env where
  "mixed_env = sample_env\<lparr>getNodeParameter :=
     (\<lambda>n i fallback. if i = 1 \<and> n = ''selectedFunction'' then Inr (JStr []) else sample_param n i fallback)\<rparr>"

definition strict_env :: env where
  "strict_env = mixed_env\<lparr>continueOnFail := False\<rparr>"

definition three_items :: "exec_data list" where
  "three_items = [sample_item, sample_item, sample_item]"

text \<open>
  Names for what one round of the binary input bridge computes: the attachment key that the
  sibling parameter holds, the attachment of the item under that key, the path of the
  transient file, and the condition under which the round bridges at all.
\<close>


definition bridge_name :: "(string \<times> jv) list \<Rightarrow> string \<Rightarrow> string" where
  "bridge_name processed toggleKey = js_String (obj_get processed (binaryPropNameKey toggleKey))"

definition bridge_attachment :: "exec_data \<Rightarrow> string \<Rightarrow> attachment option" where
  "bridge_attachment inputData n = (case binary inputData of None \<Rightarrow> None | Some bs \<Rightarrow> map_of bs n)"

definition bridge_path :: "env \<Rightarrow> exec_data \<Rightarrow> (string \<times> jv) list \<Rightarrow> string \<Rightarrow> world \<Rightarrow> string" where
  "bridge_path e inputData processed toggleKey w =
     (case bridge_attachment inputData (bridge_name processed toggleKey) of
        None \<Rightarrow> []
      | Some binaryInfo \<Rightarrow>
          pjoin e (tmpdir e)
            (temp_bin_name (date_now e (ticks w))
               (if att_fileName binaryInfo = JUndefined \<or> att_fileName binaryInfo = JNull
                then bridge_name processed toggleKey @ ''.bin''
                else js_String (att_fileName binaryInfo))))"

definition toggle_on :: "(string \<times> jv) list \<Rightarrow> string \<Rightarrow> bool" where
  "toggle_on processed toggleKey =
     (obj_get processed toggleKey = JBool True \<and> truthy (obj_get processed (binaryPropNameKey toggleKey)))"

text \<open>An installation whose script never exits.\<close>

definition hanging_env :: env where
  "hanging_env = sample_env\<lparr>spawn := (\<lambda>cmd args fs. NeverCloses)\<rparr>"

text \<open>
  The sibling of a toggle as the naming convention has it: the toggle's name with its suffix
  \<^verbatim>\<open>IsBinary\<close> replaced by \<^verbatim>\<open>BinaryPropertyName\<close>.
\<close>


definition sibling_of :: "string \<Rightarrow> string" where
  "sibling_of toggleKey =
     take (length toggleKey - length ''IsBinary'') toggleKey @ ''BinaryPropertyName''"

text \<open>A parameter set whose toggle has \<^verbatim>\<open>IsBinary\<close> inside its name as well, an item without
  attachments, and a parameter set whose sibling is the empty string.\<close>

definition nested_params :: "(string \<times> jv) list" where
  "nested_params = [(''inIsBinaryOutIsBinary'', JBool True), (''inOutIsBinaryBinaryPropertyName'', JStr ''data'')]"

definition bare_item :: exec_data where
  "bare_item = \<lparr>json = JObj [], binary = None, pairedItem = None\<rparr>"



text \<open>An installation whose temporary directory runs out of space while the parameter file
  is written: the file has been opened, and so created, when the write rejects.\<close>

definition full_disk_env :: env where
  "full_disk_env = sample_env\<lparr>fs_write :=
     (\<lambda>p content. if p = ''/tmp/n8n-ffmpeg-params-8-0.json'' then Rejected_after_open [] else Written)\<rparr>"





section \<open>Verified properties\<close>

subsection \<open>Runtime helpers\<close>




lemma member_defined: "v \<noteq> JNull \<Longrightarrow> v \<noteq> JUndefined \<Longrightarrow> member v k = Inr (opt_member v k)"
  by (cases v) simp_all

lemma opt_member_JObj: "opt_member (JObj kvs) k = obj_get kvs k"
  by (simp add: obj_get_def)

lemma obj_get_obj_set: "obj_get (obj_set kvs k v) k' = (if k' = k then v else obj_get kvs k')"
  by (induction kvs) (auto simp: obj_get_def)

lemma sample_env_sel:
  "repoRoot sample_env = ''/repo''"
  "tmpdir sample_env = ''/tmp''"
  "pjoin sample_env = (\<lambda>a b. a @ ''/'' @ b)"
  "json_parse sample_env = sample_parse"
  "json_stringify sample_env = js_String"
  "date_now sample_env = (\<lambda>k. 7 + k)"
  "fs_write sample_env = (\<lambda>p content. Written)"
  "unlink_fails sample_env = (\<lambda>p. False)"
  "getNodeParameter sample_env = sample_param"
  "continueOnFail sample_env = True"
  "manifestPath sample_env = ''/repo/ffmpeg_node_manifest.json''"
  by (simp_all add: sample_env_def manifestPath_def)

subsection \<open>Command-line flags\<close>




subsection \<open>Decoding the result of the script\<close>








subsection \<open>The dynamic form builder\<close>

lemma spread_or_empty:
  "\<not> is_indexed v \<Longrightarrow> obj_get (spread (js_or v (JObj []))) k = opt_member v k"
  by (cases v) (auto simp: js_or_def is_indexed_def obj_get_def)

lemma dynamicProperty_fields:
  assumes "valid_descriptor pr" and "plain_options pr"
  shows "(\<forall>k. k \<noteq> ''displayOptions'' \<longrightarrow> opt_member (dynamicProperty pr fv) k = opt_member pr k)"
    and "(\<forall>k. k \<noteq> ''show'' \<longrightarrow>
          opt_member (opt_member (dynamicProperty pr fv) ''displayOptions'') k =
          opt_member (opt_member pr ''displayOptions'') k)"
    and "(\<forall>k. k \<noteq> ''selectedFunction'' \<longrightarrow>
          opt_member (opt_member (opt_member (dynamicProperty pr fv) ''displayOptions'') ''show'') k =
          opt_member (opt_member (opt_member pr ''displayOptions'') ''show'') k)"
    and "opt_member (opt_member (opt_member (dynamicProperty pr fv) ''displayOptions'') ''show'')
           ''selectedFunction'' = JArr [fv]"
proof -
  obtain kvs where p: "pr = JObj kvs"
    using assms(1) by (cases pr) (auto simp: valid_descriptor_def)
  define d where "d = opt_member pr ''displayOptions''"
  define s where "s = opt_member d ''show''"
  have d: "\<not> is_indexed d" and s: "\<not> is_indexed s"
    using assms(2) by (auto simp: plain_options_def d_def s_def)
  have dp: "dynamicProperty pr fv =
      JObj (obj_set kvs ''displayOptions''
        (JObj (obj_set (spread (js_or d (JObj []))) ''show''
          (JObj (obj_set (spread (js_or s (JObj []))) ''selectedFunction'' (JArr [fv]))))))"
    by (simp add: dynamicProperty_def Let_def p d_def s_def)
  have top: "\<And>k. opt_member (dynamicProperty pr fv) k =
      (if k = ''displayOptions''
       then JObj (obj_set (spread (js_or d (JObj []))) ''show''
          (JObj (obj_set (spread (js_or s (JObj []))) ''selectedFunction'' (JArr [fv]))))
       else opt_member pr k)"
    by (subst dp) (simp add: p opt_member_JObj obj_get_obj_set del: opt_member.simps)
  have mid: "\<And>k. opt_member (opt_member (dynamicProperty pr fv) ''displayOptions'') k =
      (if k = ''show''
       then JObj (obj_set (spread (js_or s (JObj []))) ''selectedFunction'' (JArr [fv]))
       else opt_member d k)"
    by (subst top) (simp add: opt_member_JObj obj_get_obj_set spread_or_empty [OF d] del: opt_member.simps)
  have low: "\<And>k. opt_member (opt_member (opt_member (dynamicProperty pr fv) ''displayOptions'') ''show'') k =
      (if k = ''selectedFunction'' then JArr [fv] else opt_member s k)"
    by (subst mid) (simp add: opt_member_JObj obj_get_obj_set spread_or_empty [OF s] del: opt_member.simps)
  show "(\<forall>k. k \<noteq> ''displayOptions'' \<longrightarrow> opt_member (dynamicProperty pr fv) k = opt_member pr k)"
    by (simp add: top)
  show "(\<forall>k. k \<noteq> ''show'' \<longrightarrow>
          opt_member (opt_member (dynamicProperty pr fv) ''displayOptions'') k =
          opt_member (opt_member pr ''displayOptions'') k)"
    by (simp add: mid d_def)
  show "(\<forall>k. k \<noteq> ''selectedFunction'' \<longrightarrow>
          opt_member (opt_member (opt_member (dynamicProperty pr fv) ''displayOptions'') ''show'') k =
          opt_member (opt_member (opt_member pr ''displayOptions'') ''show'') k)"
    by (simp add: low s_def d_def)
  show "opt_member (opt_member (opt_member (dynamicProperty pr fv) ''displayOptions'') ''show'')
           ''selectedFunction'' = JArr [fv]"
    by (simp add: low)
qed

lemma append_props_registers:
  "\<exists>err lg'. append_props func ps (reg, lg) =
     (err, (reg @ map (\<lambda>p. dynamicProperty p (opt_member func ''value''))
                    (filter valid_descriptor (takeWhile is_defined ps)), lg'))"
proof (induction ps arbitrary: reg lg)
  case Nil
  then show ?case by simp
next
  case (Cons p ps)
  show ?case
  proof (cases "is_defined p")
    case False
    then obtain err where "member p ''name'' = Inl err"
      by (cases p) (auto simp: is_defined_def)
    then show ?thesis using False by simp
  next
    case True
    then have m: "member p ''name'' = Inr (opt_member p ''name'')"
      by (simp add: member_defined is_defined_def)
    show ?thesis
    proof (cases "valid_descriptor p")
      case v: True
      then have t: "truthy (opt_member p ''name'')" "truthy (opt_member p ''type'')"
        by (simp_all add: valid_descriptor_def)
      show ?thesis
        using True v t Cons [of "reg @ [dynamicProperty p (opt_member func ''value'')]" lg]
        by (simp add: m)
    next
      case v: False
      then have t: "\<not> truthy (opt_member p ''name'') \<or> \<not> truthy (opt_member p ''type'')"
        by (simp add: valid_descriptor_def)
      show ?thesis
        using True v t Cons [of reg "lg @ [WarnInvalidProperty (opt_member func ''uiFile'') p]"]
        by (auto simp: m)
    qed
  qed
qed

lemma load_ui_registers:
  assumes "opt_member func ''uiFile'' = JStr ui"
  shows "\<exists>err lg'. load_ui e fs func (pjoin e (repoRoot e) ui) (reg, lg) =
     (err, (reg @ map (\<lambda>p. dynamicProperty p (opt_member func ''value''))
                    (filter valid_descriptor (takeWhile is_defined (schema_props e fs func))), lg'))"
proof (cases "readJson e fs (pjoin e (repoRoot e) ui)")
  case (Inl err)
  then have "schema_props e fs func = []"
    by (simp add: schema_props_def assms)
  moreover have "\<exists>err'. load_ui e fs func (pjoin e (repoRoot e) ui) (reg, lg) = (Some err', (reg, lg))"
    using Inl by (auto simp: load_ui_def split: sum.splits)
  ultimately show ?thesis by auto
next
  case (Inr cfg)
  then have present: "access fs (pjoin e (repoRoot e) ui) = Inr ()"
    by (auto simp: readJson_def access_def split: option.splits)
  show ?thesis
  proof (cases "iterate (js_or (opt_member cfg ''properties'') (JArr []))")
    case (Inl err)
    then have "schema_props e fs func = []"
      by (simp add: schema_props_def assms Inr)
    moreover have "load_ui e fs func (pjoin e (repoRoot e) ui) (reg, lg) = (Some err, (reg, lg))"
      using Inl by (simp add: load_ui_def present Inr)
    ultimately show ?thesis by auto
  next
    case ps: (Inr ps)
    then have "schema_props e fs func = ps"
      by (simp add: schema_props_def assms Inr)
    moreover have "load_ui e fs func (pjoin e (repoRoot e) ui) (reg, lg) = append_props func ps (reg, lg)"
      using ps by (simp add: load_ui_def present Inr)
    ultimately show ?thesis
      using append_props_registers [of func ps reg lg] by simp
  qed
qed

lemma append_functions_registers:
  assumes "\<forall>f \<in> set fns. safe_entry f"
  shows "\<exists>lg'. append_functions e fs fns (reg, lg) =
           (None, (reg @ concat (map (entry_properties e fs) fns), lg'))"
  using assms
proof (induction fns arbitrary: reg lg)
  case Nil
  then show ?case by simp
next
  case (Cons f fns)
  then have safe: "safe_entry f" and rest: "\<forall>g \<in> set fns. safe_entry g" by simp_all
  have m: "member f ''uiFile'' = Inr (opt_member f ''uiFile'')"
    using safe by (simp add: safe_entry_def is_defined_def member_defined)
  show ?case
  proof (cases "truthy (opt_member f ''uiFile'') \<and> truthy (opt_member f ''value'')")
    case False
    then have "entry_properties e fs f = []"
      unfolding entry_properties_def by (simp only: if_False)
    then show ?thesis
      using False Cons.IH [OF rest, of reg "lg @ [WarnInvalidFunction f]"] by (auto simp: m)
  next
    case True
    then obtain ui where ui: "opt_member f ''uiFile'' = JStr ui"
      using safe by (cases "opt_member f ''uiFile''") (auto simp: safe_entry_def)
    have ep: "entry_properties e fs f =
        map (\<lambda>p. dynamicProperty p (opt_member f ''value''))
            (filter valid_descriptor (takeWhile is_defined (schema_props e fs f)))"
      using True by (simp add: entry_properties_def)
    from load_ui_registers [OF ui, of e fs reg lg] obtain err lg1 where
      l: "load_ui e fs f (pjoin e (repoRoot e) ui) (reg, lg) = (err, (reg @ entry_properties e fs f, lg1))"
      unfolding ep by blast
    show ?thesis
    proof (cases err)
      case None
      from Cons.IH [OF rest, of "reg @ entry_properties e fs f" lg1]
      show ?thesis using True ui l None by (simp add: m)
    next
      case (Some x)
      from Cons.IH [OF rest, of "reg @ entry_properties e fs f" "lg1 @ [ErrorReadUI (opt_member f ''name'') x]"]
      show ?thesis using True ui l Some by (simp add: m)
    qed
  qed
qed

lemma builder_registers:
  assumes "readJson e fs (manifestPath e) = Inr manifest"
    and "member manifest ''functions'' = Inr (JArr fns)"
    and "\<forall>f \<in> set fns. safe_entry f"
  shows "\<exists>lg'. loadAndAppendDynamicProperties e fs (reg, lg) =
           Inr (reg @ concat (map (entry_properties e fs) fns), lg')"
proof -
  have present: "access fs (manifestPath e) = Inr ()"
    using assms(1) by (auto simp: readJson_def access_def split: option.splits)
  have "build_body e fs (reg, lg) = append_functions e fs fns (reg, lg)"
    by (simp add: build_body_def present assms(1) assms(2))
  then show ?thesis
    using append_functions_registers [OF assms(3), of e fs reg lg]
    by (auto simp: loadAndAppendDynamicProperties_def)
qed


text \<open>
  C7 (as amended). Suppose that the manifest parses and that no entry of its function list
  makes the loop throw (no entry is null, and the \<^verbatim>\<open>uiFile\<close> of an entry that has a
  \<^verbatim>\<open>uiFile\<close> and a \<^verbatim>\<open>value\<close> is a string). Then the builder appends to the registry, entry
  by entry in manifest order: nothing for an entry without a \<^verbatim>\<open>uiFile\<close> or a \<^verbatim>\<open>value\<close> or
  with an unreadable UI file, and otherwise every descriptor with a truthy name and type
  that comes before the first null property, in schema order, augmented with
  \<^verbatim>\<open>displayOptions.show.selectedFunction = [value]\<close>. For such a descriptor whose
  \<^verbatim>\<open>displayOptions\<close> and \<^verbatim>\<open>show\<close> are not strings or arrays, the merge keeps every other
  field of the descriptor, every other entry of its \<^verbatim>\<open>displayOptions\<close> and every other
  condition of its \<^verbatim>\<open>show\<close>; a \<^verbatim>\<open>selectedFunction\<close> condition that the schema itself
  declared under \<^verbatim>\<open>show\<close> is replaced.
\<close>

theorem visibility_condition_merge:
  assumes "readJson e fs (manifestPath e) = Inr manifest"
    and "member manifest ''functions'' = Inr (JArr fns)"
    and "\<forall>f \<in> set fns. safe_entry f"
  shows "(\<exists>lg'. loadAndAppendDynamicProperties e fs (reg, lg) =
            Inr (reg @ concat (map (entry_properties e fs) fns), lg'))
    \<and> (\<forall>p fv. valid_descriptor p \<and> plain_options p \<longrightarrow>
          (\<forall>k. k \<noteq> ''displayOptions'' \<longrightarrow> opt_member (dynamicProperty p fv) k = opt_member p k)
        \<and> (\<forall>k. k \<noteq> ''show'' \<longrightarrow>
              opt_member (opt_member (dynamicProperty p fv) ''displayOptions'') k =
              opt_member (opt_member p ''displayOptions'') k)
        \<and> (\<forall>k. k \<noteq> ''selectedFunction'' \<longrightarrow>
              opt_member (opt_member (opt_member (dynamicProperty p fv) ''displayOptions'') ''show'') k =
              opt_member (opt_member (opt_member p ''displayOptions'') ''show'') k)
        \<and> opt_member (opt_member (opt_member (dynamicProperty p fv) ''displayOptions'') ''show'')
              ''selectedFunction'' = JArr [fv])"
proof (intro conjI allI impI)
  show "\<exists>lg'. loadAndAppendDynamicProperties e fs (reg, lg) =
            Inr (reg @ concat (map (entry_properties e fs) fns), lg')"
    by (rule builder_registers [OF assms])
next
  fix p fv k assume "valid_descriptor p \<and> plain_options p" and "k \<noteq> ''displayOptions''"
  then show "opt_member (dynamicProperty p fv) k = opt_member p k"
    using dynamicProperty_fields(1) by simp
next
  fix p fv k assume "valid_descriptor p \<and> plain_options p" and "k \<noteq> ''show''"
  then show "opt_member (opt_member (dynamicProperty p fv) ''displayOptions'') k =
              opt_member (opt_member p ''displayOptions'') k"
    using dynamicProperty_fields(2) by simp
next
  fix p fv k assume "valid_descriptor p \<and> plain_options p" and "k \<noteq> ''selectedFunction''"
  then show "opt_member (opt_member (opt_member (dynamicProperty p fv) ''displayOptions'') ''show'') k =
              opt_member (opt_member (opt_member p ''displayOptions'') ''show'') k"
    using dynamicProperty_fields(3) by simp
next
  fix p fv assume "valid_descriptor p \<and> plain_options p"
  then show "opt_member (opt_member (opt_member (dynamicProperty p fv) ''displayOptions'') ''show'')
              ''selectedFunction'' = JArr [fv]"
    using dynamicProperty_fields(4) by simp
qed

theorem visibility_condition_merge_witness:
  "(case loadAndAppendDynamicProperties sample_env sample_files ([], []) of
      Inl err \<Rightarrow> []
    | Inr (reg, lg) \<Rightarrow> reg) = map (\<lambda>p. dynamicProperty p (JStr ''cut'')) sample_props
   \<and> opt_member (opt_member (opt_member (dynamicProperty (sample_props ! 2) (JStr ''cut''))
        ''displayOptions'') ''show'') ''mode'' = JArr [JStr ''fast'']
   \<and> opt_member (opt_member (opt_member (dynamicProperty (sample_props ! 2) (JStr ''cut''))
        ''displayOptions'') ''show'') ''selectedFunction'' = JArr [JStr ''cut'']"
proof -
  have r: "readJson sample_env sample_files (manifestPath sample_env) = Inr sample_manifest"
    by (simp add: readJson_def sample_env_sel sample_files_def sample_parse_def)
  have m: "member sample_manifest ''functions'' =
      Inr (JArr [JObj [(''name'', JStr ''Cut''), (''value'', JStr ''cut''),
                       (''uiFile'', JStr ''ui.json''), (''scriptFile'', JStr ''run.py'')]])"
    by (simp add: sample_manifest_def)
  have ui: "readJson sample_env sample_files ''/repo/ui.json'' = Inr (JObj [(''properties'', JArr sample_props)])"
    by (simp add: readJson_def sample_env_sel sample_files_def sample_parse_def)
  have root: "pjoin sample_env (repoRoot sample_env) ''ui.json'' = ''/repo/ui.json''"
    by (simp add: sample_env_sel)
  have safe: "\<forall>f \<in> set [JObj [(''name'', JStr ''Cut''), (''value'', JStr ''cut''),
                       (''uiFile'', JStr ''ui.json''), (''scriptFile'', JStr ''run.py'')]]. safe_entry f"
    by (simp add: safe_entry_def is_defined_def)
  have whole: "takeWhile is_defined sample_props = sample_props"
    by (simp add: sample_props_def is_defined_def)
  have valid: "filter valid_descriptor sample_props = sample_props"
    by (simp add: sample_props_def valid_descriptor_def)
  have props: "concat (map (entry_properties sample_env sample_files)
      [JObj [(''name'', JStr ''Cut''), (''value'', JStr ''cut''),
             (''uiFile'', JStr ''ui.json''), (''scriptFile'', JStr ''run.py'')]]) =
      map (\<lambda>p. dynamicProperty p (JStr ''cut'')) sample_props"
    by (simp add: entry_properties_def schema_props_def root ui js_or_def whole valid)
  have shaped: "valid_descriptor (sample_props ! 2) \<and> plain_options (sample_props ! 2)"
    by (simp add: sample_props_def valid_descriptor_def plain_options_def is_indexed_def)
  have before: "opt_member (opt_member (opt_member (sample_props ! 2) ''displayOptions'') ''show'') ''mode'' =
      JArr [JStr ''fast'']"
    by (simp add: sample_props_def)
  note inst = visibility_condition_merge [OF r m safe, of "[]" "[]"]
  from inst [THEN conjunct1] obtain lg' where built:
    "loadAndAppendDynamicProperties sample_env sample_files ([], []) =
      Inr (map (\<lambda>p. dynamicProperty p (JStr ''cut'')) sample_props, lg')"
    using props by auto
  note fields = inst [THEN conjunct2, rule_format, OF shaped]
  have kept: "opt_member (opt_member (opt_member (dynamicProperty (sample_props ! 2) (JStr ''cut''))
        ''displayOptions'') ''show'') ''mode'' =
      opt_member (opt_member (opt_member (sample_props ! 2) ''displayOptions'') ''show'') ''mode''"
    using fields [THEN conjunct2, THEN conjunct2, THEN conjunct1, rule_format, of "''mode''"] by simp
  have sel: "opt_member (opt_member (opt_member (dynamicProperty (sample_props ! 2) (JStr ''cut''))
        ''displayOptions'') ''show'') ''selectedFunction'' = JArr [JStr ''cut'']"
    using fields [THEN conjunct2, THEN conjunct2, THEN conjunct2] .
  show ?thesis
    using built kept before sel by simp
qed

theorem visibility_condition_merge_counterexample:
  "opt_member (opt_member (opt_member
      (dynamicProperty
         (JObj [(''name'', JStr ''preset''), (''type'', JStr ''string''),
                (''displayOptions'', JObj [(''show'', JObj [(''selectedFunction'', JArr [JStr ''trim''])])])])
         (JStr ''cut''))
      ''displayOptions'') ''show'') ''selectedFunction'' = JArr [JStr ''cut'']
   \<and> opt_member (opt_member (opt_member
         (JObj [(''name'', JStr ''preset''), (''type'', JStr ''string''),
                (''displayOptions'', JObj [(''show'', JObj [(''selectedFunction'', JArr [JStr ''trim''])])])])
      ''displayOptions'') ''show'') ''selectedFunction'' = JArr [JStr ''trim'']
   \<and> loadAndAppendDynamicProperties damaged_env null_entry_files ([], []) =
       Inr ([], [ErrorLoad (TypeError ''Cannot read properties of null (reading uiFile)'')])
   \<and> loadAndAppendDynamicProperties damaged_env numeric_path_files ([], []) =
       Inr ([], [ErrorLoad (TypeError ''The path argument must be of type string'')])
   \<and> loadAndAppendDynamicProperties damaged_env null_property_files ([], []) =
       Inr ([], [ErrorReadUI (JStr ''Cut'') (TypeError ''Cannot read properties of null (reading name)'')])"
  by code_simp

subsection \<open>A missing manifest\<close>






lemma item_loop_first_fail:
  assumes "step w i = Some (Inl err, w')"
  shows "item_loop step False (i # is) acc w = Some (Inl err, w')"
  using assms by simp





subsection \<open>The loop over the items\<close>

lemma run_items_append: "run_items step (xs @ ys) w = run_items step ys (run_items step xs w)"
  by (induction xs arbitrary: w) auto

lemma item_loop_continue:
  assumes "\<forall>w i. step w i \<noteq> None"
  shows "\<exists>outs. item_loop step True ixs acc w = Some (Inr (acc @ outs), run_items step ixs w)
     \<and> length outs = length ixs
     \<and> (\<forall>k < length ixs. \<exists>r. map_option fst (step (run_items step (take k ixs) w) (ixs ! k)) = Some r
            \<and> outs ! k = outcome_record r (ixs ! k))"
proof (induction ixs arbitrary: acc w)
  case Nil
  then show ?case by simp
next
  case (Cons i ixs)
  have "step w i \<noteq> None" using assms by blast
  then obtain r w' where st: "step w i = Some (r, w')"
    by (cases "step w i") auto
  have wa: "world_after step w i = w'"
    by (simp add: world_after_def st)
  from Cons [of "acc @ [outcome_record r i]" w'] obtain outs where
    o: "item_loop step True ixs (acc @ [outcome_record r i]) w' =
          Some (Inr ((acc @ [outcome_record r i]) @ outs), run_items step ixs w')"
      "length outs = length ixs"
      "\<forall>k < length ixs. \<exists>r. map_option fst (step (run_items step (take k ixs) w') (ixs ! k)) = Some r
            \<and> outs ! k = outcome_record r (ixs ! k)"
    by blast
  have loop: "item_loop step True (i # ixs) acc w =
      Some (Inr (acc @ (outcome_record r i # outs)), run_items step (i # ixs) w)"
    using st o(1) by (cases r) (simp_all add: wa outcome_record_def)
  have nth: "\<forall>k < length (i # ixs). \<exists>r'. map_option fst (step (run_items step (take k (i # ixs)) w) ((i # ixs) ! k)) = Some r'
            \<and> (outcome_record r i # outs) ! k = outcome_record r' ((i # ixs) ! k)"
  proof (intro allI impI)
    fix k assume k: "k < length (i # ixs)"
    show "\<exists>r'. map_option fst (step (run_items step (take k (i # ixs)) w) ((i # ixs) ! k)) = Some r'
            \<and> (outcome_record r i # outs) ! k = outcome_record r' ((i # ixs) ! k)"
    proof (cases k)
      case 0
      then show ?thesis by (simp add: st)
    next
      case (Suc j)
      then have "j < length ixs" using k by simp
      then show ?thesis using o(3) Suc by (simp add: wa)
    qed
  qed
  show ?case
    using loop o(2) nth by (intro exI [of _ "outcome_record r i # outs"]) simp
qed

lemma item_loop_abort:
  assumes "k < length ixs"
    and "\<forall>j < k. \<exists>d w'. step (run_items step (take j ixs) w) (ixs ! j) = Some (Inr d, w')"
    and "step (run_items step (take k ixs) w) (ixs ! k) = Some (Inl err, w1)"
  shows "item_loop step False ixs acc w = Some (Inl err, w1)"
  using assms
proof (induction ixs arbitrary: k acc w)
  case Nil
  then show ?case by simp
next
  case (Cons i ixs)
  show ?case
  proof (cases k)
    case 0
    then show ?thesis using Cons.prems(3) by simp
  next
    case (Suc j)
    from Cons.prems(2) Suc have "\<exists>d w'. step (run_items step (take 0 (i # ixs)) w) ((i # ixs) ! 0) = Some (Inr d, w')"
      by blast
    then obtain d w' where st: "step w i = Some (Inr d, w')" by auto
    have wa: "world_after step w i = w'" by (simp add: world_after_def st)
    have p1: "j < length ixs" using Cons.prems(1) Suc by simp
    have p2: "\<forall>l < j. \<exists>d w''. step (run_items step (take l ixs) w') (ixs ! l) = Some (Inr d, w'')"
    proof (intro allI impI)
      fix l assume "l < j"
      then have "Suc l < k" using Suc by simp
      with Cons.prems(2) have "\<exists>d w''. step (run_items step (take (Suc l) (i # ixs)) w) ((i # ixs) ! Suc l) = Some (Inr d, w'')"
        by blast
      then show "\<exists>d w''. step (run_items step (take l ixs) w') (ixs ! l) = Some (Inr d, w'')"
        by (simp add: wa)
    qed
    have p3: "step (run_items step (take j ixs) w') (ixs ! j) = Some (Inl err, w1)"
      using Cons.prems(3) Suc by (simp add: wa)
    have "item_loop step False ixs (acc @ [d]) w' = Some (Inl err, w1)"
      using Cons.IH [OF p1 p2 p3] .
    then show ?thesis using st by simp
  qed
qed

lemma bridge_out_paired: "bridge_out e v i = Inr d \<Longrightarrow> pairedItem d = Some i"
  by (auto simp: bridge_out_def split: sum.splits if_splits)

lemma item_json_paired: "item_json e items w i = Some (Inr d, w') \<Longrightarrow> pairedItem d = Some i"
  by (auto simp: item_json_def try_json_def Let_def Date_now_def dest: bridge_out_paired
      split: sum.splits prod.splits option.splits)

lemma item_cli_paired: "item_cli e w i = (Inr d, w') \<Longrightarrow> pairedItem d = Some i"
  by (auto simp: item_cli_def Let_def split: sum.splits prod.splits option.splits if_splits)

lemma item_json_returns:
  assumes "\<forall>c a f. spawn e c a f \<noteq> NeverCloses"
  shows "item_json e items w i \<noteq> None"
proof -
  have "\<And>sp pp w w'. invoke_json e sp pp w \<noteq> (None, w')"
    using assms by (auto simp: invoke_json_def Let_def split: proc_run.splits)
  then show ?thesis
    by (auto simp: item_json_def try_json_def Let_def split: sum.splits prod.splits option.splits)
qed


lemma loop_records:
  assumes nohang: "\<forall>w i. step w i \<noteq> None"
    and paired: "\<forall>w i d w'. step w i = Some (Inr d, w') \<longrightarrow> pairedItem d = Some i"
  shows "\<exists>outs. item_loop step True [0..<n] [] w = Some (Inr outs, run_items step [0..<n] w)
     \<and> length outs = n
     \<and> (\<forall>k < n. pairedItem (outs ! k) = Some k
            \<and> (\<exists>r. result_at step w k = Some r \<and> outs ! k = outcome_record r k))"
proof -
  from item_loop_continue [OF nohang, of "[0..<n]" "[]" w] obtain outs where
    o: "item_loop step True [0..<n] [] w = Some (Inr outs, run_items step [0..<n] w)"
      "length outs = n"
      "\<forall>k < length [0..<n]. \<exists>r. map_option fst (step (run_items step (take k [0..<n]) w) ([0..<n] ! k)) = Some r
            \<and> outs ! k = outcome_record r ([0..<n] ! k)"
    by auto
  have each: "pairedItem (outs ! k) = Some k
            \<and> (\<exists>r. result_at step w k = Some r \<and> outs ! k = outcome_record r k)" if "k < n" for k
  proof -
    have tk: "take k [0..<n] = [0..<k]" using that by (simp add: take_upt)
    from o(3) that obtain r where r: "map_option fst (step (run_items step [0..<k] w) k) = Some r"
      "outs ! k = outcome_record r k"
      using tk by auto
    have "pairedItem (outcome_record r k) = Some k"
    proof (cases r)
      case (Inl err)
      then show ?thesis by (simp add: outcome_record_def error_record_def)
    next
      case (Inr d)
      with r(1) obtain w' where "step (run_items step [0..<k] w) k = Some (Inr d, w')"
        by auto
      with paired have "pairedItem d = Some k" by blast
      then show ?thesis using Inr by (simp add: outcome_record_def)
    qed
    moreover have "result_at step w k = Some r"
      using r(1) by (simp add: result_at_def)
    ultimately show ?thesis using r(2) by simp
  qed
  show ?thesis
    using o(1) o(2) each by blast
qed

lemma loop_records_explicit:
  assumes nohang: "\<forall>w i. step w i \<noteq> None"
    and paired: "\<forall>w i d w'. step w i = Some (Inr d, w') \<longrightarrow> pairedItem d = Some i"
  shows "\<exists>outs. item_loop step True [0..<n] [] w = Some (Inr outs, run_items step [0..<n] w)
     \<and> length outs = n
     \<and> (\<forall>k < n. pairedItem (outs ! k) = Some k
            \<and> ((\<exists>err. result_at step w k = Some (Inl err)
                   \<and> outs ! k = \<lparr>json = JObj [(''error'', JStr (message err))], binary = None,
                                 pairedItem = Some k\<rparr>)
               \<or> (\<exists>d. result_at step w k = Some (Inr d) \<and> outs ! k = d)))"
proof -
  from loop_records [OF nohang paired, of n w] obtain outs where
    o: "item_loop step True [0..<n] [] w = Some (Inr outs, run_items step [0..<n] w)"
      "length outs = n"
      "\<forall>k < n. pairedItem (outs ! k) = Some k
            \<and> (\<exists>r. result_at step w k = Some r \<and> outs ! k = outcome_record r k)"
    by blast
  have each: "pairedItem (outs ! k) = Some k
            \<and> ((\<exists>err. result_at step w k = Some (Inl err)
                   \<and> outs ! k = \<lparr>json = JObj [(''error'', JStr (message err))], binary = None,
                                 pairedItem = Some k\<rparr>)
               \<or> (\<exists>d. result_at step w k = Some (Inr d) \<and> outs ! k = d))" if "k < n" for k
  proof -
    from o(3) that obtain r where r: "pairedItem (outs ! k) = Some k" "result_at step w k = Some r"
      "outs ! k = outcome_record r k"
      by blast
    show ?thesis
    proof (cases r)
      case (Inl err)
      then have "outs ! k = \<lparr>json = JObj [(''error'', JStr (message err))], binary = None,
                                 pairedItem = Some k\<rparr>"
        using r(3) by (simp add: outcome_record_def error_record_def)
      then show ?thesis using r(1) r(2) Inl by blast
    next
      case (Inr d)
      then have "outs ! k = d" using r(3) by (simp add: outcome_record_def)
      then show ?thesis using r(1) r(2) Inr by blast
    qed
  qed
  show ?thesis
    using o(1) o(2) each by blast
qed

lemma loop_abort:
  assumes "k < n"
    and "\<forall>j < k. \<exists>d. result_at step w j = Some (Inr d)"
    and "step (run_items step [0..<k] w) k = Some (Inl err, w1)"
  shows "item_loop step False [0..<n] [] w = Some (Inl err, w1)"
proof (rule item_loop_abort [where k = k])
  show "k < length [0..<n]" using assms(1) by simp
  show "\<forall>j < k. \<exists>d w'. step (run_items step (take j [0..<n]) w) ([0..<n] ! j) = Some (Inr d, w')"
  proof (intro allI impI)
    fix j assume j: "j < k"
    then have tk: "take j [0..<n] = [0..<j]" and nth: "[0..<n] ! j = j"
      using assms(1) by (simp_all add: take_upt)
    from assms(2) j obtain d where "result_at step w j = Some (Inr d)" by blast
    then obtain w' where "step (run_items step [0..<j] w) j = Some (Inr d, w')"
      by (auto simp: result_at_def)
    then show "\<exists>d w'. step (run_items step (take j [0..<n]) w) ([0..<n] ! j) = Some (Inr d, w')"
      by (simp add: tk nth)
  qed
  have tk: "take k [0..<n] = [0..<k]" and nth: "[0..<n] ! k = k"
    using assms(1) by (simp_all add: take_upt)
  show "step (run_items step (take k [0..<n]) w) ([0..<n] ! k) = Some (Inl err, w1)"
    using assms(3) by (simp add: tk nth)
qed


text \<open>
  C3. Items are processed in index order and every error is caught at the item boundary.
  With continue-on-fail, the loop returns one record per input item, in input order, each
  paired with its input index: the error record \<^verbatim>\<open>{ error: message }\<close> of a failing item and,
  for another item, the record that its own block produced in the world left by the items
  before it. Without continue-on-fail, the first error ends the loop: the error is
  rethrown, in the world left by the failing item, and no later item is processed. (The
  parameter-file version returns only if no spawned process stays open for ever.)
\<close>

theorem per_item_error_policy:
  "(continueOnFail e \<longrightarrow>
      (\<exists>outs. execute_cli e w items = Some (Inr outs, run_items (step_cli e) [0..<length items] w)
         \<and> length outs = length items
         \<and> (\<forall>k < length items. pairedItem (outs ! k) = Some k
              \<and> ((\<exists>err. result_at (step_cli e) w k = Some (Inl err)
                     \<and> outs ! k = \<lparr>json = JObj [(''error'', JStr (message err))], binary = None,
                                   pairedItem = Some k\<rparr>)
                  \<or> (\<exists>d. result_at (step_cli e) w k = Some (Inr d) \<and> outs ! k = d)))))
   \<and> (continueOnFail e \<and> (\<forall>c a f. spawn e c a f \<noteq> NeverCloses) \<longrightarrow>
      (\<exists>outs. execute_json e w items = Some (Inr outs, run_items (item_json e items) [0..<length items] w)
         \<and> length outs = length items
         \<and> (\<forall>k < length items. pairedItem (outs ! k) = Some k
              \<and> ((\<exists>err. result_at (item_json e items) w k = Some (Inl err)
                     \<and> outs ! k = \<lparr>json = JObj [(''error'', JStr (message err))], binary = None,
                                   pairedItem = Some k\<rparr>)
                  \<or> (\<exists>d. result_at (item_json e items) w k = Some (Inr d) \<and> outs ! k = d)))))
   \<and> (\<forall>k err w1. \<not> continueOnFail e \<and> k < length items
          \<and> (\<forall>j < k. \<exists>d. result_at (step_cli e) w j = Some (Inr d))
          \<and> step_cli e (run_items (step_cli e) [0..<k] w) k = Some (Inl err, w1) \<longrightarrow>
        execute_cli e w items = Some (Inl err, w1))
   \<and> (\<forall>k err w1. \<not> continueOnFail e \<and> k < length items
          \<and> (\<forall>j < k. \<exists>d. result_at (item_json e items) w j = Some (Inr d))
          \<and> item_json e items (run_items (item_json e items) [0..<k] w) k = Some (Inl err, w1) \<longrightarrow>
        execute_json e w items = Some (Inl err, w1))"
proof (intro conjI impI allI)
  assume "continueOnFail e"
  moreover have "\<forall>w i. step_cli e w i \<noteq> None"
    by (simp add: step_cli_def)
  moreover have "\<forall>w i d w'. step_cli e w i = Some (Inr d, w') \<longrightarrow> pairedItem d = Some i"
    by (auto simp: step_cli_def dest: item_cli_paired)
  ultimately show "\<exists>outs. execute_cli e w items = Some (Inr outs, run_items (step_cli e) [0..<length items] w)
         \<and> length outs = length items
         \<and> (\<forall>k < length items. pairedItem (outs ! k) = Some k
              \<and> ((\<exists>err. result_at (step_cli e) w k = Some (Inl err)
                     \<and> outs ! k = \<lparr>json = JObj [(''error'', JStr (message err))], binary = None,
                                   pairedItem = Some k\<rparr>)
                  \<or> (\<exists>d. result_at (step_cli e) w k = Some (Inr d) \<and> outs ! k = d)))"
    using loop_records_explicit [where step = "step_cli e" and n = "length items" and w = w]
    by (simp add: execute_cli_def step_cli_def)
next
  assume a: "continueOnFail e \<and> (\<forall>c a f. spawn e c a f \<noteq> NeverCloses)"
  then have "\<forall>w i. item_json e items w i \<noteq> None"
    using item_json_returns by blast
  moreover have "\<forall>w i d w'. item_json e items w i = Some (Inr d, w') \<longrightarrow> pairedItem d = Some i"
    using item_json_paired by blast
  ultimately show "\<exists>outs. execute_json e w items = Some (Inr outs, run_items (item_json e items) [0..<length items] w)
         \<and> length outs = length items
         \<and> (\<forall>k < length items. pairedItem (outs ! k) = Some k
              \<and> ((\<exists>err. result_at (item_json e items) w k = Some (Inl err)
                     \<and> outs ! k = \<lparr>json = JObj [(''error'', JStr (message err))], binary = None,
                                   pairedItem = Some k\<rparr>)
                  \<or> (\<exists>d. result_at (item_json e items) w k = Some (Inr d) \<and> outs ! k = d)))"
    using a loop_records_explicit [where step = "item_json e items" and n = "length items" and w = w]
    by (simp add: execute_json_def)
next
  fix k err w1
  assume a: "\<not> continueOnFail e \<and> k < length items
          \<and> (\<forall>j < k. \<exists>d. result_at (step_cli e) w j = Some (Inr d))
          \<and> step_cli e (run_items (step_cli e) [0..<k] w) k = Some (Inl err, w1)"
  then have "item_loop (step_cli e) False [0..<length items] [] w = Some (Inl err, w1)"
    by (intro loop_abort [where k = k]) simp_all
  then show "execute_cli e w items = Some (Inl err, w1)"
    using a by (simp add: execute_cli_def step_cli_def)
next
  fix k err w1
  assume a: "\<not> continueOnFail e \<and> k < length items
          \<and> (\<forall>j < k. \<exists>d. result_at (item_json e items) w j = Some (Inr d))
          \<and> item_json e items (run_items (item_json e items) [0..<k] w) k = Some (Inl err, w1)"
  then have "item_loop (item_json e items) False [0..<length items] [] w = Some (Inl err, w1)"
    by (intro loop_abort [where k = k]) simp_all
  then show "execute_json e w items = Some (Inl err, w1)"
    using a by (simp add: execute_json_def)
qed


lemma mixed_env_sel:
  "continueOnFail mixed_env" "\<not> continueOnFail strict_env"
  "\<forall>c a f. spawn mixed_env c a f \<noteq> NeverCloses"
  "getNodeParameter strict_env ''selectedFunction'' 1 fb = Inr (JStr [])"
  "getNodeParameter strict_env ''selectedFunction'' (Suc 0) fb = Inr (JStr [])"
  "length three_items = 3"
  "1 < length three_items"
  by (simp_all add: mixed_env_def strict_env_def sample_env_def three_items_def)

theorem per_item_error_policy_witness:
  "execute_cli mixed_env sample_world three_items =
     Some (Inr [\<lparr>json = JObj [(''status'', JStr ''ok'')], binary = None, pairedItem = Some 0\<rparr>,
                \<lparr>json = JObj [(''error'', JStr ''No function selected.'')], binary = None,
                  pairedItem = Some 1\<rparr>,
                \<lparr>json = JObj [(''status'', JStr ''ok'')], binary = None, pairedItem = Some 2\<rparr>],
           run_items (step_cli mixed_env) [0..<3] sample_world)
   \<and> execute_json mixed_env sample_world three_items =
     Some (Inr [\<lparr>json = JObj [(''status'', JStr ''ok'')], binary = None, pairedItem = Some 0\<rparr>,
                \<lparr>json = JObj [(''error'', JStr ''No function selected.'')], binary = None,
                  pairedItem = Some 1\<rparr>,
                \<lparr>json = JObj [(''status'', JStr ''ok'')], binary = None, pairedItem = Some 2\<rparr>],
           run_items (item_json mixed_env three_items) [0..<3] sample_world)
   \<and> execute_cli strict_env sample_world three_items =
     Some (Inl NoFunctionSelected, run_items (step_cli strict_env) [0..<1] sample_world)
   \<and> execute_json strict_env sample_world three_items =
     Some (Inl NoFunctionSelected, run_items (item_json strict_env three_items) [0..<1] sample_world)"
proof -
  note inst1 = per_item_error_policy [of mixed_env sample_world three_items]
  note inst2 = per_item_error_policy [of strict_env sample_world three_items]
  have v1: "map_option fst (execute_cli mixed_env sample_world three_items) =
     Some (Inr [\<lparr>json = JObj [(''status'', JStr ''ok'')], binary = None, pairedItem = Some 0\<rparr>,
                \<lparr>json = JObj [(''error'', JStr ''No function selected.'')], binary = None,
                  pairedItem = Some 1\<rparr>,
                \<lparr>json = JObj [(''status'', JStr ''ok'')], binary = None, pairedItem = Some 2\<rparr>])"
    by code_simp
  have v2: "map_option fst (execute_json mixed_env sample_world three_items) =
     Some (Inr [\<lparr>json = JObj [(''status'', JStr ''ok'')], binary = None, pairedItem = Some 0\<rparr>,
                \<lparr>json = JObj [(''error'', JStr ''No function selected.'')], binary = None,
                  pairedItem = Some 1\<rparr>,
                \<lparr>json = JObj [(''status'', JStr ''ok'')], binary = None, pairedItem = Some 2\<rparr>])"
    by code_simp
  from inst1 [THEN conjunct1, THEN mp, OF mixed_env_sel(1)] obtain outs where
    "execute_cli mixed_env sample_world three_items =
       Some (Inr outs, run_items (step_cli mixed_env) [0..<length three_items] sample_world)"
    by (elim exE conjE)
  with v1 have a: "execute_cli mixed_env sample_world three_items =
     Some (Inr [\<lparr>json = JObj [(''status'', JStr ''ok'')], binary = None, pairedItem = Some 0\<rparr>,
                \<lparr>json = JObj [(''error'', JStr ''No function selected.'')], binary = None,
                  pairedItem = Some 1\<rparr>,
                \<lparr>json = JObj [(''status'', JStr ''ok'')], binary = None, pairedItem = Some 2\<rparr>],
           run_items (step_cli mixed_env) [0..<3] sample_world)"
    by (simp add: mixed_env_sel)
  from inst1 [THEN conjunct2, THEN conjunct1, THEN mp, OF conjI, OF mixed_env_sel(1) mixed_env_sel(3)]
  obtain outs2 where
    "execute_json mixed_env sample_world three_items =
       Some (Inr outs2, run_items (item_json mixed_env three_items) [0..<length three_items] sample_world)"
    by (elim exE conjE)
  with v2 have b: "execute_json mixed_env sample_world three_items =
     Some (Inr [\<lparr>json = JObj [(''status'', JStr ''ok'')], binary = None, pairedItem = Some 0\<rparr>,
                \<lparr>json = JObj [(''error'', JStr ''No function selected.'')], binary = None,
                  pairedItem = Some 1\<rparr>,
                \<lparr>json = JObj [(''status'', JStr ''ok'')], binary = None, pairedItem = Some 2\<rparr>],
           run_items (item_json mixed_env three_items) [0..<3] sample_world)"
    by (simp add: mixed_env_sel)
  have r0: "result_at (step_cli strict_env) sample_world 0 =
      Some (Inr \<lparr>json = JObj [(''status'', JStr ''ok'')], binary = None, pairedItem = Some 0\<rparr>)"
    by code_simp
  have r0': "result_at (item_json strict_env three_items) sample_world 0 =
      Some (Inr \<lparr>json = JObj [(''status'', JStr ''ok'')], binary = None, pairedItem = Some 0\<rparr>)"
    by code_simp
  have g: "step_cli strict_env W 1 = Some (Inl NoFunctionSelected, W)" for W
    by (simp add: step_cli_def item_cli_def mixed_env_sel(5))
  have g': "item_json strict_env three_items W 1 = Some (Inl NoFunctionSelected, W)" for W
    by (simp add: item_json_def try_json_def resolve_json_def mixed_env_sel(5))
  have z: "\<forall>j < (1::nat). \<exists>d. result_at (step_cli strict_env) sample_world j = Some (Inr d)"
    using r0 by simp
  have z': "\<forall>j < (1::nat). \<exists>d. result_at (item_json strict_env three_items) sample_world j = Some (Inr d)"
    using r0' by simp
  have h: "\<not> continueOnFail strict_env \<and> 1 < length three_items
          \<and> (\<forall>j < 1. \<exists>d. result_at (step_cli strict_env) sample_world j = Some (Inr d))
          \<and> step_cli strict_env (run_items (step_cli strict_env) [0..<1] sample_world) 1 =
              Some (Inl NoFunctionSelected, run_items (step_cli strict_env) [0..<1] sample_world)"
    by (intro conjI mixed_env_sel(2) mixed_env_sel(7) z g)
  have h': "\<not> continueOnFail strict_env \<and> 1 < length three_items
          \<and> (\<forall>j < 1. \<exists>d. result_at (item_json strict_env three_items) sample_world j = Some (Inr d))
          \<and> item_json strict_env three_items (run_items (item_json strict_env three_items) [0..<1] sample_world) 1 =
              Some (Inl NoFunctionSelected, run_items (item_json strict_env three_items) [0..<1] sample_world)"
    by (intro conjI mixed_env_sel(2) mixed_env_sel(7) z' g')
  have c: "execute_cli strict_env sample_world three_items =
     Some (Inl NoFunctionSelected, run_items (step_cli strict_env) [0..<1] sample_world)"
    using inst2 [THEN conjunct2, THEN conjunct2, THEN conjunct1, rule_format, OF h] .
  have d: "execute_json strict_env sample_world three_items =
     Some (Inl NoFunctionSelected, run_items (item_json strict_env three_items) [0..<1] sample_world)"
    using inst2 [THEN conjunct2, THEN conjunct2, THEN conjunct2, rule_format, OF h'] .
  show ?thesis
    using a b c d by simp
qed


subsection \<open>The binary input bridge\<close>

lemma bridge_in_skip:
  "\<not> toggle_on processed k \<Longrightarrow>
     bridge_in e inputData i (k # ks) processed temps w = bridge_in e inputData i ks processed temps w"
  by (auto simp: toggle_on_def)

lemma bridge_in_missing:
  "toggle_on processed k \<Longrightarrow> bridge_attachment inputData (bridge_name processed k) = None \<Longrightarrow>
     bridge_in e inputData i (k # ks) processed temps w =
       (Inl (BinaryPropertyNotFound (bridge_name processed k)), temps, w)"
  by (auto simp: toggle_on_def bridge_attachment_def bridge_name_def Let_def split: option.splits)

lemma bridge_in_no_buffer:
  "toggle_on processed k \<Longrightarrow> bridge_attachment inputData (bridge_name processed k) = Some bi \<Longrightarrow>
   getBinaryDataBuffer e i (bridge_name processed k) = Inl err \<Longrightarrow>
     bridge_in e inputData i (k # ks) processed temps w = (Inl err, temps, w)"
  by (auto simp: toggle_on_def bridge_attachment_def bridge_name_def Let_def split: option.splits)

lemma bridge_in_rejected:
  "toggle_on processed k \<Longrightarrow> bridge_attachment inputData (bridge_name processed k) = Some bi \<Longrightarrow>
   getBinaryDataBuffer e i (bridge_name processed k) = Inr buf \<Longrightarrow>
   fs_write e (bridge_path e inputData processed k w) buf = Rejected_before_open \<Longrightarrow>
     bridge_in e inputData i (k # ks) processed temps w =
       (Inl (FsError (''cannot open '' @ bridge_path e inputData processed k w)), temps,
        w\<lparr>ticks := Suc (ticks w)\<rparr>)"
  by (auto simp: toggle_on_def bridge_attachment_def bridge_name_def bridge_path_def Let_def
      Date_now_def writeFile_def split: option.splits)


lemma bridge_in_bridged:
  "toggle_on processed k \<Longrightarrow> bridge_attachment inputData (bridge_name processed k) = Some bi \<Longrightarrow>
   getBinaryDataBuffer e i (bridge_name processed k) = Inr buf \<Longrightarrow>
   fs_write e (bridge_path e inputData processed k w) buf = Written \<Longrightarrow>
     bridge_in e inputData i (k # ks) processed temps w =
       bridge_in e inputData i ks
         (obj_set processed (binaryPropNameKey k) (JStr (bridge_path e inputData processed k w)))
         (temps @ [bridge_path e inputData processed k w])
         (w\<lparr>ticks := Suc (ticks w),
            files := (files w)(bridge_path e inputData processed k w \<mapsto> buf),
            trace := trace w @ [Wrote (bridge_path e inputData processed k w)]\<rparr>)"
  by (auto simp: toggle_on_def bridge_attachment_def bridge_name_def bridge_path_def Let_def
      Date_now_def writeFile_def split: option.splits)
















lemma obj_set_keys: "set (map fst (obj_set kvs k v)) = insert k (set (map fst kvs))"
proof (induction kvs)
  case Nil
  then show ?case by simp
next
  case (Cons a kvs)
  obtain k' v' where a: "a = (k', v')" by (cases a)
  show ?case
  proof (cases "k' = k")
    case True
    then show ?thesis using a by simp
  next
    case False
    have "set (map fst (obj_set (a # kvs) k v)) = insert k' (set (map fst (obj_set kvs k v)))"
      using a False by simp
    also have "\<dots> = insert k' (insert k (set (map fst kvs)))"
      using Cons by simp
    finally show ?thesis using a by auto
  qed
qed

lemma obj_set_distinct: "distinct (map fst kvs) \<Longrightarrow> distinct (map fst (obj_set kvs k v))"
proof (induction kvs)
  case Nil
  then show ?case by simp
next
  case (Cons a kvs)
  obtain k' v' where a: "a = (k', v')" by (cases a)
  show ?case
  proof (cases "k' = k")
    case True
    then show ?thesis using Cons.prems a by simp
  next
    case False
    have "k' \<notin> set (map fst (obj_set kvs k v))"
      using Cons.prems a False by (simp add: obj_set_keys del: set_map)
    then show ?thesis using Cons a False by simp
  qed
qed

lemma collect_parameters_distinct:
  "collect_parameters e i ps parameters = Inr out \<Longrightarrow> distinct (map fst parameters) \<Longrightarrow>
     distinct (map fst out)"
proof (induction ps arbitrary: parameters)
  case Nil
  then show ?case by simp
next
  case (Cons p ps)
  then show ?case
    by (auto simp: obj_set_distinct split: sum.splits if_splits)
qed

text \<open>The parameter set that the resolver hands to the bridge has distinct names.\<close>

lemma resolve_json_distinct:
  assumes "resolve_json e fs i = Inr (sp, parameters)"
  shows "distinct (map fst parameters)"
proof -
  have "(\<exists>ps. collect_parameters e i ps [] = Inr parameters) \<or> parameters = []"
    using assms
    by (auto simp: resolve_json_def split: sum.splits if_splits option.splits jv.splits)
  then show ?thesis
    using collect_parameters_distinct [of e i _ "[]" parameters] by auto
qed






subsection \<open>Toggles whose name contains the suffix twice\<close>

text \<open>
  C9. The claim holds for plain toggles (\<open>bridge_in_skip\<close>). The sibling key, however, is
  computed with \<^verbatim>\<open>toggleKey.replace('IsBinary', '')\<close>, which removes the first occurrence
  rather than the suffix: for the toggle \<^verbatim>\<open>inIsBinaryOutIsBinary\<close>, whose sibling
  \<^verbatim>\<open>inIsBinaryOutBinaryPropertyName\<close> is absent, the bridge reads the unrelated parameter
  \<^verbatim>\<open>inOutIsBinaryBinaryPropertyName\<close>, writes a transient file and rewrites that parameter;
  with an item that has no such attachment it throws.
\<close>

theorem incomplete_toggle_not_skipped:
  "binaryToggleKeys nested_params = [''inIsBinaryOutIsBinary'']
   \<and> sibling_of ''inIsBinaryOutIsBinary'' = ''inIsBinaryOutBinaryPropertyName''
   \<and> obj_get nested_params ''inIsBinaryOutBinaryPropertyName'' = JUndefined
   \<and> binaryPropNameKey ''inIsBinaryOutIsBinary'' = ''inOutIsBinaryBinaryPropertyName''
   \<and> fst (bridge_in sample_env sample_item 0 (binaryToggleKeys nested_params) nested_params [] sample_world) =
       Inr [(''inIsBinaryOutIsBinary'', JBool True),
            (''inOutIsBinaryBinaryPropertyName'', JStr ''/tmp/n8n-ffmpeg-bin-7-v.mp4'')]
   \<and> fst (snd (bridge_in sample_env sample_item 0 (binaryToggleKeys nested_params) nested_params [] sample_world)) =
       [''/tmp/n8n-ffmpeg-bin-7-v.mp4'']
   \<and> fst (bridge_in sample_env bare_item 0 (binaryToggleKeys nested_params) nested_params [] sample_world) =
       Inl (BinaryPropertyNotFound ''data'')"
  by code_simp


subsection \<open>Cleanup of transient files\<close>

lemma cleanup_effect:
  "\<exists>evs. trace (cleanup e ps w) = trace w @ evs
     \<and> (\<forall>p. Wrote p \<notin> set evs)
     \<and> (\<forall>p. files w p = None \<longrightarrow> files (cleanup e ps w) p = None)
     \<and> (\<forall>p \<in> set ps. \<not> unlink_fails e p \<longrightarrow> files (cleanup e ps w) p = None)
     \<and> (\<forall>p \<in> set ps. files (cleanup e ps w) p \<noteq> None \<longrightarrow> CleanupFailed p \<in> set evs)"
proof (induction ps arbitrary: w)
  case Nil
  then show ?case by simp
next
  case (Cons q ps)
  define w1 where "w1 = unlink_logged e q w"
  from Cons [of w1] obtain evs where
    r: "trace (cleanup e ps w1) = trace w1 @ evs"
       "\<forall>p. Wrote p \<notin> set evs"
       "\<forall>p. files w1 p = None \<longrightarrow> files (cleanup e ps w1) p = None"
       "\<forall>p \<in> set ps. \<not> unlink_fails e p \<longrightarrow> files (cleanup e ps w1) p = None"
       "\<forall>p \<in> set ps. files (cleanup e ps w1) p \<noteq> None \<longrightarrow> CleanupFailed p \<in> set evs"
    by blast
  obtain ev where s: "trace w1 = trace w @ [ev]" "ev = CleanupFailed q \<or> ev = Unlinked q"
    "\<forall>p. files w p = None \<longrightarrow> files w1 p = None"
    "\<not> unlink_fails e q \<longrightarrow> files w1 q = None"
    "files w1 q \<noteq> None \<longrightarrow> ev = CleanupFailed q"
    by (cases "files w q = None \<or> unlink_fails e q") (auto simp: w1_def unlink_logged_def)
  have c: "cleanup e (q # ps) w = cleanup e ps w1"
    by (simp add: w1_def)
  have t: "trace (cleanup e (q # ps) w) = trace w @ (ev # evs)"
    using r(1) s(1) c by simp
  have nw: "\<forall>p. Wrote p \<notin> set (ev # evs)"
    using r(2) s(2) by auto
  have keep: "\<forall>p. files w p = None \<longrightarrow> files (cleanup e (q # ps) w) p = None"
    using r(3) s(3) c by simp
  have gone: "\<forall>p \<in> set (q # ps). \<not> unlink_fails e p \<longrightarrow> files (cleanup e (q # ps) w) p = None"
    using r(3) r(4) s(4) c by auto
  have logged: "\<forall>p \<in> set (q # ps). files (cleanup e (q # ps) w) p \<noteq> None \<longrightarrow>
      CleanupFailed p \<in> set (ev # evs)"
  proof
    fix p assume p: "p \<in> set (q # ps)"
    show "files (cleanup e (q # ps) w) p \<noteq> None \<longrightarrow> CleanupFailed p \<in> set (ev # evs)"
    proof
      assume left: "files (cleanup e (q # ps) w) p \<noteq> None"
      show "CleanupFailed p \<in> set (ev # evs)"
      proof (cases "p = q")
        case True
        have "files w1 q \<noteq> None" using left r(3) c True by auto
        then show ?thesis using s(5) True by simp
      next
        case False
        then have "p \<in> set ps" using p by simp
        then show ?thesis using r(5) left c by simp
      qed
    qed
  qed
  show ?case
    using t nw keep gone logged by blast
qed

lemma invoke_json_trace:
  "invoke_json e sp pp w = (r, w') \<Longrightarrow> trace w' = trace w @ [Spawned ''python'' [sp, pp]] \<and> files w' = files w"
  by (auto simp: invoke_json_def Let_def split: proc_run.splits if_splits)


lemma bridge_in_trace:
  assumes "bridge_in e inputData i ks processed temps w = (r, temps', w')"
    and clean: "\<forall>p c part. fs_write e p c \<noteq> Rejected_after_open part"
  shows "\<exists>new. temps' = temps @ new \<and> trace w' = trace w @ map Wrote new"
  using assms(1)
proof (induction ks arbitrary: processed temps w)
  case Nil
  then show ?case by auto
next
  case (Cons k ks)
  show ?case
  proof (cases "toggle_on processed k")
    case False
    then have "bridge_in e inputData i ks processed temps w = (r, temps', w')"
      using Cons.prems by (simp add: bridge_in_skip del: bridge_in.simps)
    from Cons.IH [OF this] show ?thesis by auto
  next
    case on: True
    show ?thesis
    proof (cases "bridge_attachment inputData (bridge_name processed k)")
      case None
      then show ?thesis
        using Cons.prems on by (auto simp add: bridge_in_missing simp del: bridge_in.simps)
    next
      case (Some bi)
      show ?thesis
      proof (cases "getBinaryDataBuffer e i (bridge_name processed k)")
        case (Inl err)
        then show ?thesis
          using Cons.prems on Some by (auto simp add: bridge_in_no_buffer simp del: bridge_in.simps)
      next
        case (Inr buf)
        define tp where "tp = bridge_path e inputData processed k w"
        show ?thesis
        proof (cases "fs_write e tp buf")
          case Written
          define w1 where "w1 = w\<lparr>ticks := Suc (ticks w), files := (files w)(tp \<mapsto> buf),
                                  trace := trace w @ [Wrote tp]\<rparr>"
          have run: "bridge_in e inputData i ks (obj_set processed (binaryPropNameKey k) (JStr tp))
                       (temps @ [tp]) w1 = (r, temps', w')"
            using Cons.prems on Some Inr Written unfolding tp_def w1_def
            by (simp add: bridge_in_bridged del: bridge_in.simps)
          from Cons.IH [OF run] obtain new where
            n: "temps' = (temps @ [tp]) @ new" "trace w' = trace w1 @ map Wrote new"
            by blast
          have "temps' = temps @ (tp # new) \<and> trace w' = trace w @ map Wrote (tp # new)"
            using n by (simp add: w1_def)
          then show ?thesis by blast
        next
          case Rejected_before_open
          then show ?thesis
            using Cons.prems on Some Inr unfolding tp_def
            by (auto simp add: bridge_in_rejected simp del: bridge_in.simps)
        next
          case (Rejected_after_open part)
          then show ?thesis using clean by blast
        qed
      qed
    qed
  qed
qed

lemma try_json_writes:
  assumes "try_json e items w i = (res, temps, w1)"
    and clean: "\<forall>p c part. fs_write e p c \<noteq> Rejected_after_open part"
  shows "\<exists>evs. trace w1 = trace w @ evs \<and> (\<forall>p. Wrote p \<in> set evs \<longrightarrow> p \<in> set temps)"
proof (cases "resolve_json e (files w) i")
  case (Inl err)
  then show ?thesis using assms(1) by (auto simp: try_json_def)
next
  case (Inr sp)
  obtain scriptPath parameters where sp: "sp = (scriptPath, parameters)" by (cases sp)
  obtain r tf wb where b: "bridge_in e (items ! i) i (binaryToggleKeys parameters) parameters [] w = (r, tf, wb)"
    by (cases "bridge_in e (items ! i) i (binaryToggleKeys parameters) parameters [] w") auto
  from bridge_in_trace [OF b clean] have fr: "trace wb = trace w @ map Wrote tf"
    by auto
  show ?thesis
  proof (cases r)
    case (Inl err)
    then show ?thesis using assms(1) Inr sp b fr by (auto simp: try_json_def)
  next
    case processed: (Inr processed)
    define pp where "pp = pjoin e (tmpdir e) (params_name (date_now e (ticks wb)) i)"
    show ?thesis
    proof (cases "fs_write e pp (json_stringify e (JObj processed))")
      case Written
      define w3 where "w3 = wb\<lparr>ticks := Suc (ticks wb),
          files := (files wb)(pp \<mapsto> json_stringify e (JObj processed)), trace := trace wb @ [Wrote pp]\<rparr>"
      obtain r4 w4 where inv: "invoke_json e scriptPath pp w3 = (r4, w4)"
        by (cases "invoke_json e scriptPath pp w3") auto
      have t4: "trace w4 = trace w @ map Wrote tf @ [Wrote pp, Spawned ''python'' [scriptPath, pp]]"
        using invoke_json_trace [OF inv] fr by (simp add: w3_def)
      have "temps = tf @ [pp] \<and> w1 = w4"
        using assms(1) Inr sp b processed Written inv
        by (auto simp: try_json_def Let_def Date_now_def writeFile_def pp_def w3_def
            split: option.splits sum.splits)
      then show ?thesis using t4 by auto
    next
      case Rejected_before_open
      then show ?thesis
        using assms(1) Inr sp b fr processed
        by (auto simp: try_json_def Let_def Date_now_def writeFile_def pp_def)
    next
      case (Rejected_after_open part)
      then show ?thesis using clean by blast
    qed
  qed
qed

text \<open>When no write rejects after it has opened its file, every file that the block of an
  item wrote is unlinked before the item returns, and a failed deletion is only logged.\<close>

lemma cleanup_after_clean_writes:
  assumes "item_json e items w i = Some (r, w')"
    and clean: "\<forall>p c part. fs_write e p c \<noteq> Rejected_after_open part"
  shows "fst (try_json e items w i) = Some r
    \<and> (\<forall>p. Wrote p \<in> set (drop (length (trace w)) (trace w')) \<longrightarrow>
          (\<not> unlink_fails e p \<longrightarrow> files w' p = None)
        \<and> (files w' p \<noteq> None \<longrightarrow> CleanupFailed p \<in> set (drop (length (trace w)) (trace w'))))"
proof -
  obtain res temps w1 where t: "try_json e items w i = (res, temps, w1)"
    by (cases "try_json e items w i") auto
  have res: "res = Some r" and w': "w' = cleanup e temps w1"
    using assms(1) t by (auto simp: item_json_def split: option.splits)
  from try_json_writes [OF t clean] obtain evs where
    evs: "trace w1 = trace w @ evs" "\<forall>p. Wrote p \<in> set evs \<longrightarrow> p \<in> set temps"
    by blast
  from cleanup_effect [of e temps w1] obtain evs' where
    c: "trace (cleanup e temps w1) = trace w1 @ evs'"
       "\<forall>p. Wrote p \<notin> set evs'"
       "\<forall>p \<in> set temps. \<not> unlink_fails e p \<longrightarrow> files (cleanup e temps w1) p = None"
       "\<forall>p \<in> set temps. files (cleanup e temps w1) p \<noteq> None \<longrightarrow> CleanupFailed p \<in> set evs'"
    by blast
  have new: "drop (length (trace w)) (trace w') = evs @ evs'"
    using evs(1) c(1) w' by simp
  have "\<forall>p. Wrote p \<in> set (evs @ evs') \<longrightarrow>
          (\<not> unlink_fails e p \<longrightarrow> files w' p = None)
        \<and> (files w' p \<noteq> None \<longrightarrow> CleanupFailed p \<in> set (evs @ evs'))"
    using evs(2) c(2) c(3) c(4) w' by auto
  then show ?thesis
    using res t new by simp
qed

text \<open>
  C2. The \<^verbatim>\<open>finally\<close> block unlinks what \<^verbatim>\<open>tempFiles\<close> lists, and a path is pushed to
  \<^verbatim>\<open>tempFiles\<close> only after the awaited \<^verbatim>\<open>fs.writeFile\<close> has resolved. When the write of the
  parameter file rejects after the file was opened, the item fails with the write error,
  the bridge file written before is unlinked, and the parameter file stays behind: it is
  never handed to \<^verbatim>\<open>fs.unlink\<close>.
\<close>

theorem rejected_write_leaves_file:
  "map_option fst (item_json full_disk_env [sample_item] sample_world 0) =
     Some (Inl (FsError ''cannot write /tmp/n8n-ffmpeg-params-8-0.json''))
   \<and> trace (snd (the (item_json full_disk_env [sample_item] sample_world 0))) =
       [Wrote ''/tmp/n8n-ffmpeg-bin-7-v.mp4'', Wrote ''/tmp/n8n-ffmpeg-params-8-0.json'',
        Unlinked ''/tmp/n8n-ffmpeg-bin-7-v.mp4'']
   \<and> files (snd (the (item_json full_disk_env [sample_item] sample_world 0)))
        ''/tmp/n8n-ffmpeg-params-8-0.json'' = Some []
   \<and> files (snd (the (item_json full_disk_env [sample_item] sample_world 0)))
        ''/tmp/n8n-ffmpeg-bin-7-v.mp4'' = None"
  by code_simp

subsection \<open>The execution timeout\<close>

lemma invoke_cli_times_out:
  assumes "spawn e ''python3'' (sp # args) (files w) = NeverCloses
     \<or> (\<exists>code out err. spawn e ''python3'' (sp # args) (files w) = Closed False code out err)"
  shows "fst (invoke_cli e sp args w) = Inl TimedOut \<and> Killed \<in> set (trace (snd (invoke_cli e sp args w)))"
  using assms by (auto simp: invoke_cli_def Let_def)

text \<open>
  C4. The claim holds for the command-line version, whose promise is rejected by the
  30000 ms timer. The parameter-file version arms no timer: with a script that never
  exits, its \<^verbatim>\<open>execute\<close> never returns, while the command-line version, on the same
  installation, records the timeout error for the item.
\<close>

theorem timeout_missing_in_parameter_file_version:
  "execute_json hanging_env sample_world [sample_item] = None
   \<and> map_option fst (execute_cli hanging_env sample_world [sample_item]) =
       Some (Inr [error_record TimedOut 0])
   \<and> message TimedOut = ''Script execution timed out''"
  by code_simp

end
